theory Spec2Isabelle
  imports Main "HOL-Library.AList"
begin

section \<open>Session context and state identifiers\<close>

text \<open>
  The states of \<^verbatim>\<open>clica/interface/states.py\<close> are classes with a \<^verbatim>\<open>state_id\<close>
  and static methods only; a handler returns the class of the next state, or
  \<^verbatim>\<open>None\<close> (the Exit state). A state is modelled by its identifier and a handler
  result by \<open>state_id option\<close> paired with the updated session context.
\<close>

datatype state_id =
    PROMPT | AUTO_PROMPT | EXAMPLE | AUTO_SOLVE | EXIT | AGENT_TURN | TRAIN
  | SAVE_MODEL | LOAD_MODEL | RESET_SESSION | EVAL | MENU

datatype ActionSource = HUMAN | AI

text \<open>
  The fields of \<^verbatim>\<open>InteractiveCLI\<close> that the handlers read and write. The
  workspace \<open>'env\<close> and the agent \<open>'agent\<close> are external collaborators and stay
  abstract. Two fields are traces of effects that the source performs on the outside
  world: \<open>enacted\<close> lists the calls of \<^verbatim>\<open>cli._env_enact\<close> in order, \<open>shown\<close> the
  messages and prompts that a handler itself writes to the terminal, in order
  (clearing the screen does not erase the trace). The views drawn by the
  \<^verbatim>\<open>_render\<close> methods go through helpers of \<^verbatim>\<open>InteractiveCLI\<close> and
  \<^verbatim>\<open>LineWriter\<close>, change nothing but the screen, and are not recorded. Python's
  \<^verbatim>\<open>None\<close> for an optional string is \<open>None\<close>.
\<close>

record ('env, 'agent) cli =
  env :: 'env
  agent :: 'agent
  insert_queue :: string
  curr_reward :: int
  loaded_model_name :: "string option"
  model_save_dir :: "string option"
  eval_data_path :: "string option"
  enacted :: "(int \<times> ActionSource) list"
  shown :: "string list"

section \<open>Menu state\<close>

text \<open>
  \<^verbatim>\<open>MenuState.key_to_state\<close>. The constants \<^verbatim>\<open>KEY_CTRL_P\<close> and \<^verbatim>\<open>KEY_CTRL_E\<close> come
  from \<^verbatim>\<open>clica.interface.inputs\<close> and are parameters here. In a Python dict display a
  later entry replaces an earlier one with the same key, hence the reversal before
  \<open>map_of\<close>, which takes the first match.
\<close>

definition key_to_state_entries :: "string \<Rightarrow> string \<Rightarrow> (string \<times> state_id) list" where
  "key_to_state_entries KEY_CTRL_P KEY_CTRL_E =
     [(''p'', PROMPT),
      (KEY_CTRL_P, AUTO_PROMPT),
      ('','', AUTO_PROMPT),
      (''e'', EXAMPLE),
      (''t'', TRAIN),
      (''s'', SAVE_MODEL),
      (''l'', LOAD_MODEL),
      ([CHR 0x0A], AGENT_TURN),
      ([CHR 0x0D], AGENT_TURN),
      (KEY_CTRL_E, AUTO_SOLVE),
      (''.'', AUTO_SOLVE),
      ([CHR 0x1B], EXIT),
      ([CHR 0x03], EXIT),
      (''r'', RESET_SESSION),
      (''v'', EVAL)]"

definition key_to_state :: "string \<Rightarrow> string \<Rightarrow> string \<Rightarrow> state_id option" where
  "key_to_state KEY_CTRL_P KEY_CTRL_E = map_of (rev (key_to_state_entries KEY_CTRL_P KEY_CTRL_E))"

text \<open>
  \<^verbatim>\<open>MenuState.handle_execution\<close>: \<open>key\<close> is what \<^verbatim>\<open>cli.stdscr.getkey()\<close> returned.
  \<^verbatim>\<open>state or MenuState\<close> is \<^verbatim>\<open>MenuState\<close> exactly when \<^verbatim>\<open>state\<close> is \<^verbatim>\<open>None\<close>, a class
  being truthy.
\<close>

definition MenuState_handle_execution ::
  "string \<Rightarrow> string \<Rightarrow> string \<Rightarrow> ('env, 'agent) cli \<Rightarrow> state_id option \<times> ('env, 'agent) cli" where
  "MenuState_handle_execution KEY_CTRL_P KEY_CTRL_E key c =
     (case key_to_state KEY_CTRL_P KEY_CTRL_E key of
        Some st \<Rightarrow> (Some st, c)
      | None \<Rightarrow>
          if key = ''+'' \<or> key = ''='' then (Some MENU, c\<lparr>curr_reward := curr_reward c + 1\<rparr>)
          else if key = ''-'' then (Some MENU, c\<lparr>curr_reward := curr_reward c - 1\<rparr>)
          else (Some MENU, c))"

section \<open>Collaborators\<close>

text \<open>
  The tokenizer (\<^verbatim>\<open>cli.agent.tokenizer\<close>) is external: \<open>encode\<close> is
  \<^verbatim>\<open>tokenizer.encode(text, add_special_tokens=False)\<close>, and
  \<open>convert_tokens_to_ids\<close> maps one symbolic token to its action id.
\<close>

record tokenizer =
  encode :: "string \<Rightarrow> int list"
  convert_tokens_to_ids :: "string \<Rightarrow> int"

text \<open>
  The constants of \<^verbatim>\<open>clica.interface.inputs\<close> that the editing state uses; the
  module is not among the sources, so they are parameters.
\<close>

record inputs =
  KEY_ENTER_TOKEN :: string
  KEY_CTRL_RIGHT_TOKEN :: string
  COMMAND_TOKENS :: "string list"

text \<open>
  What the handlers ask of the workspace \<^verbatim>\<open>cli.env\<close>, directly or through the
  accessors of \<^verbatim>\<open>InteractiveCLI\<close>: \<open>ws_apply\<close> is the effect of one action on the
  workspace, \<open>ws_obs\<close> is \<^verbatim>\<open>env.get_obs()\<close>, \<open>ws_instruction\<close>, \<open>ws_code\<close> and
  \<open>ws_exec_output\<close> are \<^verbatim>\<open>cli._get_env_instruction()\<close>, \<^verbatim>\<open>cli._get_env_code()\<close> and
  \<^verbatim>\<open>cli._get_env_exec_output()\<close>, \<open>ws_code_ids\<close> is
  \<^verbatim>\<open>env.get_dict_obs(include_cursor=False)['code']\<close> and \<open>ws_cursor_pos\<close> is
  \<^verbatim>\<open>env._cursor_pos\<close>.
\<close>

record ('env, 'obs) workspace =
  ws_apply :: "int \<Rightarrow> ActionSource \<Rightarrow> 'env \<Rightarrow> 'env"
  ws_obs :: "'env \<Rightarrow> 'obs"
  ws_instruction :: "'env \<Rightarrow> string"
  ws_code :: "'env \<Rightarrow> string"
  ws_exec_output :: "'env \<Rightarrow> string"
  ws_code_ids :: "'env \<Rightarrow> int list"
  ws_cursor_pos :: "'env \<Rightarrow> int"

text \<open>
  Modelled from the spec: \<^verbatim>\<open>InteractiveCLI._env_enact(action_id, source)\<close> is defined
  in \<^verbatim>\<open>clica/interface/cli.py\<close>, which is not among the sources. By the spec's
  workspace contract (\<open>apply(action-id, source)\<close> mutates the workspace and every
  applied action is recorded in order) it applies the action to \<^verbatim>\<open>cli.env\<close>; the
  call is appended to the trace \<open>enacted\<close>.
\<close>

definition env_enact ::
  "('env, 'obs) workspace \<Rightarrow> int \<Rightarrow> ActionSource \<Rightarrow> ('env, 'agent) cli \<Rightarrow> ('env, 'agent) cli" where
  "env_enact W a src c = c\<lparr>env := ws_apply W a src (env c), enacted := enacted c @ [(a, src)]\<rparr>"

text \<open>A \<^verbatim>\<open>for\<close> loop that enacts a list of actions in order.\<close>

definition enact_all ::
  "('env, 'obs) workspace \<Rightarrow> ActionSource \<Rightarrow> int list \<Rightarrow> ('env, 'agent) cli \<Rightarrow> ('env, 'agent) cli" where
  "enact_all W src as c = fold (\<lambda>a. env_enact W a src) as c"

section \<open>Example (editing) state\<close>

text \<open>
  The \<^verbatim>\<open>while True\<close> loop of \<^verbatim>\<open>ExampleState.handle_execution\<close>. Its state is the
  session context and the local list \<^verbatim>\<open>queued_actions\<close>; \<open>keys\<close> is the stream of
  values that \<^verbatim>\<open>cli._query_and_parse_user_key()\<close> will return. Rendering only writes
  to the terminal and \<^verbatim>\<open>render_queued\<close> only decides whether to render again, so
  both are left out. The loop returns at \<^verbatim>\<open>break\<close> with the session context and the
  final value of \<^verbatim>\<open>queued_actions\<close>; when the key stream ends first the read never
  returns, which is \<open>None\<close>.
\<close>

fun ExampleState_loop ::
  "tokenizer \<Rightarrow> inputs \<Rightarrow> ('env, 'obs) workspace \<Rightarrow> string list \<Rightarrow> int list
     \<Rightarrow> ('env, 'agent) cli \<Rightarrow> (('env, 'agent) cli \<times> int list) option" where
  "ExampleState_loop T I W keys (action_id # queued_actions) c =
     ExampleState_loop T I W keys queued_actions (env_enact W action_id HUMAN c)"
| "ExampleState_loop T I W [] [] c = None"
| "ExampleState_loop T I W (key # keys) [] c =
     (if key = [CHR 0x1B] then
        (if insert_queue c \<noteq> [] then
           Some (enact_all W HUMAN (encode T (insert_queue c)) (c\<lparr>insert_queue := []\<rparr>),
                 [convert_tokens_to_ids T (KEY_ENTER_TOKEN I)])
         else Some (c, []))
      else if key = ''KEY_RESIZE'' then ExampleState_loop T I W keys [] c
      else if key = KEY_CTRL_RIGHT_TOKEN I then
        ExampleState_loop T I W keys
          (encode T (insert_queue c) @ [convert_tokens_to_ids T (KEY_ENTER_TOKEN I)])
          (c\<lparr>insert_queue := []\<rparr>)
      else if key \<notin> set (COMMAND_TOKENS I) then
        ExampleState_loop T I W keys [] (c\<lparr>insert_queue := insert_queue c @ key\<rparr>)
      else if insert_queue c \<noteq> [] then
        ExampleState_loop T I W keys
          (encode T (insert_queue c)
             @ [convert_tokens_to_ids T (KEY_ENTER_TOKEN I), convert_tokens_to_ids T key])
          (c\<lparr>insert_queue := []\<rparr>)
      else
        ExampleState_loop T I W keys [] (env_enact W (convert_tokens_to_ids T key) HUMAN c))"

text \<open>
  \<^verbatim>\<open>ExampleState.handle_execution\<close>: the text buffer and the action queue start
  empty; after the loop the local queue is discarded and the next state is Menu.
\<close>

definition ExampleState_handle_execution ::
  "tokenizer \<Rightarrow> inputs \<Rightarrow> ('env, 'obs) workspace \<Rightarrow> string list \<Rightarrow> ('env, 'agent) cli
     \<Rightarrow> (state_id option \<times> ('env, 'agent) cli) option" where
  "ExampleState_handle_execution T I W keys c =
     (case ExampleState_loop T I W keys [] (c\<lparr>insert_queue := []\<rparr>) of
        None \<Rightarrow> None
      | Some (c', queued_actions) \<Rightarrow> Some (Some MENU, c'))"

text \<open>Plain text: a key that none of the tests of the loop catches before the buffer.\<close>

definition plain_text :: "inputs \<Rightarrow> string \<Rightarrow> bool" where
  "plain_text I key \<longleftrightarrow>
     key \<noteq> [CHR 0x1B] \<and> key \<noteq> ''KEY_RESIZE'' \<and> key \<noteq> KEY_CTRL_RIGHT_TOKEN I
     \<and> key \<notin> set (COMMAND_TOKENS I)"

section \<open>Exceptions\<close>

text \<open>
  A raised Python exception, as far as the handlers look at it: \<^verbatim>\<open>str(e)\<close> and the
  text of \<^verbatim>\<open>traceback.format_exc()\<close>. A collaborator that may raise returns
  \<open>exn + 'a\<close>, with \<open>Inl\<close> for the exception.
\<close>

datatype exn = Exception (message: string) (stack_trace: string)

section \<open>Agent-turn state\<close>

text \<open>
  The agent as the turn loop uses it: \<^verbatim>\<open>agent.get_action(recurrent_state, obs)\<close>
  returns the new recurrent state and an action id; \<^verbatim>\<open>agent.max_gen_length\<close> and
  \<^verbatim>\<open>agent.eos_token\<close> are attributes. The recurrent state starts as \<^verbatim>\<open>None\<close>.
\<close>

record ('agent, 'obs, 'r) agent_ops =
  get_action :: "'agent \<Rightarrow> 'r option \<Rightarrow> 'obs \<Rightarrow> 'r option \<times> int"
  max_gen_length :: "'agent \<Rightarrow> int"
  eos_token :: "'agent \<Rightarrow> int"

text \<open>
  The \<^verbatim>\<open>while act_idx < cli.agent.max_gen_length\<close> loop of
  \<^verbatim>\<open>AgentTurnState.handle_execution\<close>; \<open>r\<close> is the pair that \<^verbatim>\<open>get_action\<close> returns.
\<close>

function AgentTurnState_loop ::
  "('agent, 'obs, 'r) agent_ops \<Rightarrow> ('env, 'obs) workspace \<Rightarrow> 'r option \<Rightarrow> int
     \<Rightarrow> ('env, 'agent) cli \<Rightarrow> ('env, 'agent) cli" where
  "AgentTurnState_loop A W recurrent_state act_idx c =
     (if act_idx < max_gen_length A (agent c) then
        (let r = get_action A (agent c) recurrent_state (ws_obs W (env c));
             c' = env_enact W (snd r) AI c
         in if snd r = eos_token A (agent c') then c'
            else AgentTurnState_loop A W (fst r) (act_idx + 1) c')
      else c)"
  by pat_completeness auto
termination
  by (relation "measure (\<lambda>(A, W, rs, i, c). nat (max_gen_length A (agent c) - i))")
     (auto simp: env_enact_def)

declare AgentTurnState_loop.simps [simp del]

definition AgentTurnState_handle_execution ::
  "('agent, 'obs, 'r) agent_ops \<Rightarrow> ('env, 'obs) workspace \<Rightarrow> ('env, 'agent) cli
     \<Rightarrow> state_id option \<times> ('env, 'agent) cli" where
  "AgentTurnState_handle_execution A W c = (Some MENU, AgentTurnState_loop A W None 0 c)"

text \<open>The action ids that one invocation of the agent-turn state adds to the trace.\<close>

definition turn_actions ::
  "('agent, 'obs, 'r) agent_ops \<Rightarrow> ('env, 'obs) workspace \<Rightarrow> ('env, 'agent) cli \<Rightarrow> int list" where
  "turn_actions A W c =
     map fst (drop (length (enacted c)) (enacted (snd (AgentTurnState_handle_execution A W c))))"

text \<open>
  The claim's words for the turn, to compare the loop with: the actions the agent
  generates over \<open>n\<close> iterations when each is applied as AI-sourced before the next
  is asked for, with no early stop; and the prefix of a list through its first element
  that satisfies a test.
\<close>

fun generated_actions ::
  "('agent, 'obs, 'r) agent_ops \<Rightarrow> ('env, 'obs) workspace \<Rightarrow> nat \<Rightarrow> 'r option
     \<Rightarrow> ('env, 'agent) cli \<Rightarrow> int list" where
  "generated_actions A W 0 rs c = []"
| "generated_actions A W (Suc n) rs c =
     snd (get_action A (agent c) rs (ws_obs W (env c)))
       # generated_actions A W n (fst (get_action A (agent c) rs (ws_obs W (env c))))
           (env_enact W (snd (get_action A (agent c) rs (ws_obs W (env c)))) AI c)"

fun take_through :: "('a \<Rightarrow> bool) \<Rightarrow> 'a list \<Rightarrow> 'a list" where
  "take_through P [] = []"
| "take_through P (x # xs) = (if P x then [x] else x # take_through P xs)"

section \<open>Auto-solve state\<close>

text \<open>
  Python's \<^verbatim>\<open>str.strip()\<close> without argument removes leading and trailing
  whitespace, the characters for which \<^verbatim>\<open>str.isspace\<close> holds. A \<open>char\<close> stands for
  a code point below 256; on that range the whitespace characters are 9 to 13, 28 to
  32, 133 and 160.
\<close>

definition py_isspace :: "char \<Rightarrow> bool" where
  "py_isspace ch \<longleftrightarrow>
     (let n = (of_char ch :: nat)
      in (9 \<le> n \<and> n \<le> 13) \<or> (28 \<le> n \<and> n \<le> 32) \<or> n = 133 \<or> n = 160)"

definition py_strip :: "string \<Rightarrow> string" where
  "py_strip s = rev (dropWhile py_isspace (rev (dropWhile py_isspace s)))"

text \<open>
  \<^verbatim>\<open>generate_solution\<close> (a request to an external service, which may raise) and
  \<^verbatim>\<open>get_actions_from_diff\<close>, both of \<^verbatim>\<open>clica.solution_generation\<close>.
\<close>

record solver =
  generate_solution :: "string \<Rightarrow> string \<Rightarrow> string \<Rightarrow> exn + string"
  get_actions_from_diff :: "int list \<Rightarrow> int list \<Rightarrow> tokenizer \<Rightarrow> int \<Rightarrow> int list"

text \<open>
  \<^verbatim>\<open>AutoSolveState.handle_execution\<close>. \<^verbatim>\<open>not instruction.strip()\<close> holds when the
  stripped string is empty. An exception of the generator is not caught.
\<close>

definition AutoSolveState_handle_execution ::
  "solver \<Rightarrow> tokenizer \<Rightarrow> ('env, 'obs) workspace \<Rightarrow> ('env, 'agent) cli
     \<Rightarrow> exn + (state_id option \<times> ('env, 'agent) cli)" where
  "AutoSolveState_handle_execution S T W c =
     (let instruction = ws_instruction W (env c)
      in if py_strip instruction = [] then Inr (Some MENU, c)
         else
           (let code = ws_code W (env c);
                exec_output = ws_exec_output W (env c)
            in case generate_solution S instruction code exec_output of
                 Inl e \<Rightarrow> Inl e
               | Inr solution \<Rightarrow>
                   (let solution_ids = encode T solution;
                        current_ids = ws_code_ids W (env c);
                        actions = get_actions_from_diff S current_ids solution_ids T
                                    (ws_cursor_pos W (env c))
                    in Inr (Some MENU, enact_all W AI actions c))))"

section \<open>Train state\<close>

text \<open>
  Training reads and replaces references to workspace objects, so the workspaces live
  in an explicit store: a list of workspace values, an object being its index.
  \<open>env\<close> is the reference held by \<^verbatim>\<open>cli.env\<close> (the live workspace),
  \<open>last_trained_env\<close> and \<open>last_trained_env_state\<close> those held by the attributes of
  the same names (the second does not exist before \<^verbatim>\<open>train_agent\<close> first assigns
  it), \<open>db\<close> the entries of the action log in the order they were appended, each a
  tuple whose first component is the entry's id.
\<close>

record ('w, 'agent, 'p) train_cli = "(nat, 'agent) cli" +
  store :: "'w list"
  db :: "(int \<times> 'p) list"
  last_trained_step :: int
  last_trained_env :: nat
  last_trained_env_state :: "nat option"

text \<open>
  Modelled from the spec: \<^verbatim>\<open>cli.db.get_actions_since_action_id\<close> belongs to
  \<^verbatim>\<open>clica.database\<close>, which is not among the sources. The spec's contract of the
  log store is \<open>entries_after(sequence_id)\<close>: all log entries with a sequence id
  strictly after the given one, in order.
\<close>

definition get_actions_since_action_id :: "(int \<times> 'p) list \<Rightarrow> int \<Rightarrow> (int \<times> 'p) list" where
  "get_actions_since_action_id log n = filter (\<lambda>e. n < fst e) log"

text \<open>
  \<^verbatim>\<open>copy.deepcopy\<close> of the object at \<open>r\<close>: a new object with the same value; the
  result is the new store and the reference of the copy.
\<close>

definition deepcopy :: "'w list \<Rightarrow> nat \<Rightarrow> 'w list \<times> nat" where
  "deepcopy st r = (st @ [st ! r], length st)"

text \<open>
  \<^verbatim>\<open>cli.agent.train_on_actions(env, actions)\<close> is external. It receives the agent,
  a reference to a workspace and the entries; it may update the agent and any
  workspace object, create objects, and returns a reference.
\<close>

type_synonym ('w, 'agent, 'p) trainer =
  "'agent \<Rightarrow> 'w list \<Rightarrow> nat \<Rightarrow> (int \<times> 'p) list \<Rightarrow> 'agent \<times> 'w list \<times> nat"

text \<open>
  \<^verbatim>\<open>TrainState.train_agent\<close>. \<^verbatim>\<open>actions[-1][0]\<close> is the id of the last entry; the
  list is not empty where it is read.
\<close>

definition train_agent ::
  "('w, 'agent, 'p) trainer \<Rightarrow> ('w, 'agent, 'p) train_cli \<Rightarrow> ('w, 'agent, 'p) train_cli" where
  "train_agent train_on_actions c =
     (let actions = get_actions_since_action_id (db c) (last_trained_step c)
      in if actions = [] then c
         else
           (let e = last_trained_env c;
                (agent', store', result) = train_on_actions (agent c) (store c) e actions;
                (store'', copy) = deepcopy store' (env c)
            in c\<lparr>agent := agent', store := store'', last_trained_env := result,
                 last_trained_step := fst (last actions),
                 last_trained_env_state := Some copy\<rparr>))"

text \<open>
  A session as far as training sees it: calls of \<^verbatim>\<open>train_agent\<close>, and entries
  appended to the log in between.
\<close>

datatype 'p session_event = Train | Logged "(int \<times> 'p) list"

fun session ::
  "('w, 'agent, 'p) trainer \<Rightarrow> 'p session_event list \<Rightarrow> ('w, 'agent, 'p) train_cli
     \<Rightarrow> ('w, 'agent, 'p) train_cli" where
  "session TR [] c = c"
| "session TR (Train # evs) c = session TR evs (train_agent TR c)"
| "session TR (Logged es # evs) c = session TR evs (c\<lparr>db := db c @ es\<rparr>)"

section \<open>Paths and terminal output\<close>

text \<open>
  \<^verbatim>\<open>os.path.join\<close> of two components on a POSIX system: an absolute second
  component replaces the first; otherwise the two are joined with one slash, unless
  the first is empty or already ends with one.
\<close>

definition path_join :: "string \<Rightarrow> string \<Rightarrow> string" where
  "path_join a p =
     (if p \<noteq> [] \<and> hd p = CHR ''/'' then p
      else if a = [] \<or> last a = CHR ''/'' then a @ p
      else a @ ''/'' @ p)"

text \<open>
  The file-system queries of the handlers: \<^verbatim>\<open>os.path.exists\<close> and
  \<^verbatim>\<open>os.path.isdir\<close>, which do not raise, and \<^verbatim>\<open>os.listdir\<close>, which raises when
  the path is not a readable directory.
\<close>

record fs_ops =
  path_exists :: "string \<Rightarrow> bool"
  isdir :: "string \<Rightarrow> bool"
  listdir :: "string \<Rightarrow> exn + string list"

text \<open>
  Writing lines to the terminal (\<^verbatim>\<open>stdscr.addstr\<close>, \<^verbatim>\<open>LineWriter.write\<close>,
  \<^verbatim>\<open>print\<close>) appends them to the trace \<open>shown\<close>. Waiting for a key whose value is
  discarded (\<^verbatim>\<open>stdscr.getch()\<close> after a message) changes nothing.
\<close>

definition show_lines :: "string list \<Rightarrow> ('env, 'agent) cli \<Rightarrow> ('env, 'agent) cli" where
  "show_lines ls c = c\<lparr>shown := shown c @ ls\<rparr>"

text \<open>
  Decimal digits of a natural number (an f-string with \<^verbatim>\<open>len(...)\<close>), and a string
  between single quotes.
\<close>

fun show_nat :: "nat \<Rightarrow> string" where
  "show_nat n =
     (if n < 10 then [char_of (48 + n)]
      else show_nat (n div 10) @ [char_of (48 + n mod 10)])"

declare show_nat.simps [simp del]

definition quoted :: "string \<Rightarrow> string" where
  "quoted s = [CHR 0x27] @ s @ [CHR 0x27]"

section \<open>Save-model state\<close>

text \<open>
  \<^verbatim>\<open>SaveModelState._generate_default_model_name\<close>: \<open>random_id\<close> is the outcome of
  \<^verbatim>\<open>random.choices\<close>, six characters. \<open>default_name\<close> is
  \<^verbatim>\<open>cli.loaded_model_name or _generate_default_model_name()\<close>; \<^verbatim>\<open>None\<close> and the empty
  string are falsy.
\<close>

definition generate_default_model_name :: "string \<Rightarrow> string" where
  "generate_default_model_name random_id = ''model_'' @ random_id"

definition default_name :: "string \<Rightarrow> ('env, 'agent) cli \<Rightarrow> string" where
  "default_name random_id c =
     (case loaded_model_name c of
        None \<Rightarrow> generate_default_model_name random_id
      | Some n \<Rightarrow> if n \<noteq> [] then n else generate_default_model_name random_id)"

text \<open>
  \<^verbatim>\<open>SaveModelState.handle_execution\<close>. \<^verbatim>\<open>not cli.model_save_dir\<close> holds for \<^verbatim>\<open>None\<close>
  and for the empty string. \<open>get_text_input\<close> is the prompt of
  \<^verbatim>\<open>clica.interface.curses_utils\<close>, given the default name: it returns the entered
  text, or \<^verbatim>\<open>None\<close> on escape. \<open>agent_save\<close> is \<^verbatim>\<open>cli.agent.save(full_path)\<close> acting on
  the file system \<open>'fs\<close>; it may raise, and the handler does not catch that.
\<close>

definition SaveModelState_handle_execution ::
  "string \<Rightarrow> (string \<Rightarrow> string option) \<Rightarrow> (string \<Rightarrow> 'agent \<Rightarrow> 'fs \<Rightarrow> exn + 'fs)
     \<Rightarrow> ('env, 'agent) cli \<Rightarrow> 'fs \<Rightarrow> exn + (state_id option \<times> ('env, 'agent) cli \<times> 'fs)" where
  "SaveModelState_handle_execution random_id get_text_input agent_save c fs =
     (case model_save_dir c of
        None \<Rightarrow>
          Inr (Some MENU,
               show_lines [''Error: model_save_dir not set in config'',
                           ''Press any key to continue...''] c,
               fs)
      | Some d \<Rightarrow>
          if d = [] then
            Inr (Some MENU,
                 show_lines [''Error: model_save_dir not set in config'',
                             ''Press any key to continue...''] c,
                 fs)
          else
            (let c1 = show_lines [''Enter model name to save: '', ''[ENTER] save | [ESC] cancel''] c
             in case get_text_input (default_name random_id c) of
                  None \<Rightarrow> Inr (Some MENU, c1, fs)
                | Some model_name \<Rightarrow>
                    if model_name = [] then
                      Inr (Some SAVE_MODEL,
                           show_lines [''Error: Model needs a name to save'',
                                       ''Press any key to try again...''] c1,
                           fs)
                    else
                      (let full_path = path_join d model_name
                       in case agent_save full_path (agent c) fs of
                            Inl e \<Rightarrow> Inl e
                          | Inr fs' \<Rightarrow>
                              Inr (Some MENU,
                                   show_lines [''Model saved to: '' @ full_path,
                                               ''Press any key to continue...'']
                                     (c1\<lparr>loaded_model_name := Some model_name\<rparr>),
                                   fs'))))"

section \<open>Load-model state\<close>

text \<open>
  \<^verbatim>\<open>cli.agent.load(full_path)\<close>: the agent after the call, and the exception when the
  call raised one.
\<close>

type_synonym 'agent loader = "string \<Rightarrow> 'agent \<Rightarrow> 'agent \<times> exn option"

text \<open>
  The \<^verbatim>\<open>for selected_model in selected_models\<close> loop of
  \<^verbatim>\<open>LoadModelState.handle_execution\<close>, with its \<^verbatim>\<open>try\<close>/\<^verbatim>\<open>except Exception\<close>.
\<close>

fun load_models :: "'agent loader \<Rightarrow> string \<Rightarrow> string list \<Rightarrow> ('env, 'agent) cli \<Rightarrow> ('env, 'agent) cli" where
  "load_models agent_load d [] c = c"
| "load_models agent_load d (selected_model # rest) c =
     (let full_path = path_join d selected_model;
          c1 = show_lines [''Loading model '' @ quoted selected_model @ ''...''] c
      in case agent_load full_path (agent c1) of
           (agent', None) \<Rightarrow>
             load_models agent_load d rest
               (c1\<lparr>agent := agent', loaded_model_name := Some selected_model\<rparr>)
         | (agent', Some e) \<Rightarrow>
             load_models agent_load d rest
               (show_lines [''Error loading model '' @ quoted selected_model @ '': '' @ message e,
                            ''Press any key to continue...'']
                  (c1\<lparr>agent := agent'\<rparr>)))"

text \<open>
  \<^verbatim>\<open>LoadModelState.handle_execution\<close>. \<open>select_from_list\<close> is the selection made
  at the prompt (empty when nothing was selected). An exception of \<^verbatim>\<open>os.listdir\<close>
  is not caught.
\<close>

definition LoadModelState_handle_execution ::
  "fs_ops \<Rightarrow> (string list \<Rightarrow> string list) \<Rightarrow> 'agent loader
     \<Rightarrow> ('env, 'agent) cli \<Rightarrow> exn + (state_id option \<times> ('env, 'agent) cli)" where
  "LoadModelState_handle_execution F select_from_list agent_load c =
     (case model_save_dir c of
        None \<Rightarrow>
          Inr (Some MENU, show_lines [''Error: model_save_dir not set in config'',
                                      ''Press any key to continue...''] c)
      | Some d \<Rightarrow>
          if d = [] then
            Inr (Some MENU, show_lines [''Error: model_save_dir not set in config'',
                                        ''Press any key to continue...''] c)
          else
            (case listdir F d of
               Inl e \<Rightarrow> Inl e
             | Inr names \<Rightarrow>
                 (let model_files = filter (\<lambda>f. isdir F (path_join d f)) names
                  in if model_files = [] then
                       Inr (Some MENU, show_lines [''No saved models found.'',
                                                   ''Press any key to continue...''] c)
                     else
                       (let selected_models = select_from_list model_files
                        in if selected_models = [] then Inr (Some MENU, c)
                           else
                             (let c' = load_models agent_load d selected_models c
                              in Inr (Some MENU,
                                      show_lines
                                        [if length selected_models = 1
                                         then ''Model '' @ quoted (selected_models ! 0) @ '' loaded!''
                                         else show_nat (length selected_models) @ '' models loaded!'',
                                         ''Press any key to continue...''] c'))))))"

text \<open>
  The claim's words for the load loop, to compare the loop with: the outcome of
  loading each selected model in selection order, each load starting from the agent
  the previous one left; what is reported for one outcome; and the name of the last
  model whose load succeeded, or the name remembered before when none did.
\<close>

fun load_outcomes :: "'agent loader \<Rightarrow> string \<Rightarrow> string list \<Rightarrow> 'agent \<Rightarrow> (string \<times> exn option) list" where
  "load_outcomes agent_load d [] a = []"
| "load_outcomes agent_load d (m # ms) a =
     (m, snd (agent_load (path_join d m) a))
       # load_outcomes agent_load d ms (fst (agent_load (path_join d m) a))"

fun load_report :: "string \<times> exn option \<Rightarrow> string list" where
  "load_report (m, None) = [''Loading model '' @ quoted m @ ''...'']"
| "load_report (m, Some e) =
     [''Loading model '' @ quoted m @ ''...'',
      ''Error loading model '' @ quoted m @ '': '' @ message e,
      ''Press any key to continue...'']"

definition last_loaded :: "(string \<times> exn option) list \<Rightarrow> string option \<Rightarrow> string option" where
  "last_loaded outcomes before =
     (case filter (\<lambda>out. snd out = None) outcomes of
        [] \<Rightarrow> before
      | x # xs \<Rightarrow> Some (fst (last (x # xs))))"

section \<open>Eval state\<close>

text \<open>
  A result of \<^verbatim>\<open>run_agent_eval\<close> is a dict from metric names to values, here the
  list of its items with the values as they are printed. \<^verbatim>\<open>run_agent_eval(agent,
  item_path)\<close> gives the agent after the call and the result or the exception raised.
\<close>

type_synonym eval_result = "(string \<times> string) list"

type_synonym 'agent evaluator = "'agent \<Rightarrow> string \<Rightarrow> 'agent \<times> (exn + eval_result)"

text \<open>
  The dict stored for an item whose evaluation raised: \<^verbatim>\<open>str(e)\<close> and
  \<^verbatim>\<open>traceback.format_exc()\<close>.
\<close>

definition error_result :: "exn \<Rightarrow> eval_result" where
  "error_result e = [(''error'', message e), (''stack_trace'', stack_trace e)]"

text \<open>
  The \<^verbatim>\<open>for item in selected_items\<close> loop of \<^verbatim>\<open>EvalState.handle_execution\<close>.
  \<^verbatim>\<open>results\<close> is a dict keyed by item: an association list in insertion order, in
  which assigning to a key already present replaces its value in place. Saving and
  restoring the terminal mode is not modelled.
\<close>

fun run_evaluations ::
  "'agent evaluator \<Rightarrow> string \<Rightarrow> string list \<Rightarrow> ('env, 'agent) cli \<Rightarrow> (string \<times> eval_result) list
     \<Rightarrow> ('env, 'agent) cli \<times> (string \<times> eval_result) list" where
  "run_evaluations run_agent_eval data_path [] c results = (c, results)"
| "run_evaluations run_agent_eval data_path (item # items) c results =
     (let c1 = show_lines [[CHR 0x0A] @ ''Running evaluation: '' @ item @ [CHR 0x0A],
                           replicate 40 CHR ''=''] c;
          item_path = path_join data_path item
      in case run_agent_eval (agent c1) item_path of
           (agent', Inr result) \<Rightarrow>
             run_evaluations run_agent_eval data_path items (c1\<lparr>agent := agent'\<rparr>)
               (AList.update item result results)
         | (agent', Inl e) \<Rightarrow>
             run_evaluations run_agent_eval data_path items (c1\<lparr>agent := agent'\<rparr>)
               (AList.update item (error_result e) results))"

text \<open>What the results view writes for one item.\<close>

definition display_result :: "string \<times> eval_result \<Rightarrow> string list" where
  "display_result r =
     (''=== '' @ fst r @ '' ==='') # map (\<lambda>(metric, v). metric @ '': '' @ v) (snd r)"

text \<open>
  \<^verbatim>\<open>EvalState.handle_execution\<close>; \<open>select_multiple_from_list\<close> is the multi-select
  prompt. An exception of \<^verbatim>\<open>os.listdir\<close> is not caught.
\<close>

definition EvalState_handle_execution ::
  "fs_ops \<Rightarrow> (string list \<Rightarrow> string list) \<Rightarrow> 'agent evaluator
     \<Rightarrow> ('env, 'agent) cli \<Rightarrow> exn + (state_id option \<times> ('env, 'agent) cli)" where
  "EvalState_handle_execution F select_multiple_from_list run_agent_eval c =
     (case eval_data_path c of
        None \<Rightarrow>
          Inr (Some MENU, show_lines [''Error: eval_data_path not set in config'',
                                      ''Press any key to continue...''] c)
      | Some p \<Rightarrow>
          if p = [] then
            Inr (Some MENU, show_lines [''Error: eval_data_path not set in config'',
                                        ''Press any key to continue...''] c)
          else if \<not> path_exists F p then
            Inr (Some MENU, show_lines [''Error: Invalid eval_data_path in config: '' @ p,
                                        ''Press any key to continue...''] c)
          else
            (case listdir F p of
               Inl e \<Rightarrow> Inl e
             | Inr names \<Rightarrow>
                 (let eval_items = filter (\<lambda>f. path_exists F (path_join p f)) names
                  in if eval_items = [] then
                       Inr (Some MENU, show_lines [''No eval options found.'',
                                                   ''Press any key to continue...''] c)
                     else
                       (let selected_items = select_multiple_from_list eval_items
                        in if selected_items = [] then Inr (Some MENU, c)
                           else
                             (let (c', results) =
                                    run_evaluations run_agent_eval p selected_items c []
                              in Inr (Some MENU,
                                      show_lines (concat (map display_result results)
                                                    @ [''Press any key to continue...''])
                                        c'))))))"

text \<open>
  The claim's words for the evaluation loop, to compare the loop with: the outcome of
  evaluating each selected item in order, and the result recorded for an outcome.
\<close>

fun eval_outcomes :: "'agent evaluator \<Rightarrow> string \<Rightarrow> string list \<Rightarrow> 'agent
     \<Rightarrow> (string \<times> (exn + eval_result)) list" where
  "eval_outcomes R p [] a = []"
| "eval_outcomes R p (item # items) a =
     (item, snd (R a (path_join p item))) # eval_outcomes R p items (fst (R a (path_join p item)))"

fun recorded :: "string \<times> (exn + eval_result) \<Rightarrow> string \<times> eval_result" where
  "recorded (item, Inl e) = (item, error_result e)"
| "recorded (item, Inr r) = (item, r)"

text \<open>A session context and key constants for closed instances.\<close>

definition cli0 :: "(int list, nat) cli" where
  "cli0 = \<lparr>env = [], agent = 0, insert_queue = [], curr_reward = 0,
           loaded_model_name = None, model_save_dir = None, eval_data_path = None,
           enacted = [], shown = []\<rparr>"

text \<open>
  A byte-level tokenizer with three command tokens, and a workspace that is the list
  of the action ids applied to it.
\<close>

definition demo_tokenizer :: tokenizer where
  "demo_tokenizer =
     \<lparr>encode = map (\<lambda>ch. int (of_char ch)),
      convert_tokens_to_ids =
        (\<lambda>t. if t = ''<ENTER>'' then 256 else if t = ''<UP>'' then 257 else 258)\<rparr>"

definition demo_inputs :: inputs where
  "demo_inputs =
     \<lparr>KEY_ENTER_TOKEN = ''<ENTER>'', KEY_CTRL_RIGHT_TOKEN = ''<CTRL_RIGHT>'',
      COMMAND_TOKENS = [''<ENTER>'', ''<UP>'', ''<CTRL_RIGHT>'']\<rparr>"

definition demo_workspace :: "(int list, int list) workspace" where
  "demo_workspace =
     \<lparr>ws_apply = (\<lambda>a src e. e @ [a]), ws_obs = (\<lambda>e. e), ws_instruction = (\<lambda>e. []),
      ws_code = (\<lambda>e. []), ws_exec_output = (\<lambda>e. []), ws_code_ids = (\<lambda>e. e),
      ws_cursor_pos = (\<lambda>e. int (length e))\<rparr>"

text \<open>
  An agent that answers 7 twice and then its end-of-turn marker 0, with at most five
  actions a turn; and a solution generator whose every request fails.
\<close>

definition demo_agent :: "(nat, int list, nat) agent_ops" where
  "demo_agent =
     \<lparr>get_action = (\<lambda>ag rs ob. case rs of None \<Rightarrow> (Some 1, 7)
                                  | Some k \<Rightarrow> (Some (k + 1), if k < 2 then 7 else 0)),
      max_gen_length = (\<lambda>ag. 5),
      eos_token = (\<lambda>ag. 0)\<rparr>"

definition failing_solver :: solver where
  "failing_solver =
     \<lparr>generate_solution = (\<lambda>i c e. Inl (Exception ''no service'' [])),
      get_actions_from_diff = (\<lambda>cur sol T p. sol)\<rparr>"

text \<open>
  A trainer that replays the entries' action ids onto the snapshot object in place and
  returns that object; and a session context whose live workspace (object 0) holds the
  actions 104, 105, 106, whose snapshot (object 1) is empty and whose log holds two
  entries.
\<close>

definition demo_trainer :: "(int list, nat, int) trainer" where
  "demo_trainer ag st r acts = (ag + length acts, st[r := st ! r @ map snd acts], r)"

definition demo_train_cli :: "(int list, nat, int) train_cli" where
  "demo_train_cli =
     \<lparr>env = 0, agent = 0, insert_queue = [], curr_reward = 0, loaded_model_name = None,
      model_save_dir = None, eval_data_path = None, enacted = [], shown = [],
      store = [[104, 105, 106], []], db = [(1, 104), (2, 105)],
      last_trained_step = 0, last_trained_env = 1, last_trained_env_state = None\<rparr>"

text \<open>
  A loader and an evaluator that fail on item \<open>b\<close>, a directory listing with three
  entries, and a save that appends to a list of files.
\<close>

definition demo_loader :: "nat loader" where
  "demo_loader path a =
     (if path = ''models/b'' then (a, Some (Exception ''bad checkpoint'' ''Traceback''))
      else (a + 1, None))"

definition demo_evaluator :: "nat evaluator" where
  "demo_evaluator a path =
     (if path = ''evals/b'' then (a, Inl (Exception ''bad item'' ''Traceback''))
      else (a + 1, Inr [(''accuracy'', ''1.0'')]))"

definition demo_fs :: fs_ops where
  "demo_fs =
     \<lparr>path_exists = (\<lambda>p. True), isdir = (\<lambda>p. True),
      listdir = (\<lambda>p. Inr [''a'', ''b'', ''c''])\<rparr>"

definition demo_save :: "string \<Rightarrow> nat \<Rightarrow> (string \<times> nat) list \<Rightarrow> exn + (string \<times> nat) list" where
  "demo_save path a fs = Inr (fs @ [(path, a)])"

section \<open>Menu state: reward keys\<close>

lemma key_to_state_reward_keys:
  assumes "KEY_CTRL_P \<notin> {''+'', ''='', ''-''}" and "KEY_CTRL_E \<notin> {''+'', ''='', ''-''}"
  shows "key_to_state KEY_CTRL_P KEY_CTRL_E ''+'' = None"
    and "key_to_state KEY_CTRL_P KEY_CTRL_E ''='' = None"
    and "key_to_state KEY_CTRL_P KEY_CTRL_E ''-'' = None"
  using assms by (auto simp: key_to_state_def key_to_state_entries_def)

text \<open>
  Claim C6. In the Menu state, for one key event: \<open>+\<close> or \<open>=\<close> raises the pending
  reward by exactly 1, \<open>-\<close> lowers it by exactly 1, and for these keys, as for every
  key outside the dispatch table, the next state is Menu (and a key that is neither in
  the table nor a reward key changes nothing). The two control-key constants are not
  among the sources; the statement holds whenever neither of them is one of the three
  reward keys.
\<close>

theorem C6_menu_reward_keys:
  assumes "KEY_CTRL_P \<notin> {''+'', ''='', ''-''}" and "KEY_CTRL_E \<notin> {''+'', ''='', ''-''}"
  shows "(key = ''+'' \<or> key = ''='' \<longrightarrow>
            MenuState_handle_execution KEY_CTRL_P KEY_CTRL_E key c
              = (Some MENU, c\<lparr>curr_reward := curr_reward c + 1\<rparr>))
       \<and> (key = ''-'' \<longrightarrow>
            MenuState_handle_execution KEY_CTRL_P KEY_CTRL_E key c
              = (Some MENU, c\<lparr>curr_reward := curr_reward c - 1\<rparr>))
       \<and> (key_to_state KEY_CTRL_P KEY_CTRL_E key = None \<longrightarrow>
            fst (MenuState_handle_execution KEY_CTRL_P KEY_CTRL_E key c) = Some MENU)
       \<and> (key_to_state KEY_CTRL_P KEY_CTRL_E key = None \<and> key \<notin> {''+'', ''='', ''-''} \<longrightarrow>
            MenuState_handle_execution KEY_CTRL_P KEY_CTRL_E key c = (Some MENU, c))"
  using key_to_state_reward_keys[OF assms]
  by (auto simp: MenuState_handle_execution_def)

theorem C6_menu_reward_keys_witness:
  "curr_reward (snd (MenuState_handle_execution [CHR 0x10] [CHR 0x05] ''+'' cli0)) = 1
   \<and> curr_reward (snd (MenuState_handle_execution [CHR 0x10] [CHR 0x05] ''='' cli0)) = 1
   \<and> curr_reward (snd (MenuState_handle_execution [CHR 0x10] [CHR 0x05] ''-'' cli0)) = - 1
   \<and> fst (MenuState_handle_execution [CHR 0x10] [CHR 0x05] ''+'' cli0) = Some MENU
   \<and> fst (MenuState_handle_execution [CHR 0x10] [CHR 0x05] ''-'' cli0) = Some MENU
   \<and> key_to_state [CHR 0x10] [CHR 0x05] ''x'' = None
   \<and> MenuState_handle_execution [CHR 0x10] [CHR 0x05] ''x'' cli0 = (Some MENU, cli0)"
proof -
  have P: "[CHR 0x10] \<notin> {''+'', ''='', ''-''}" by simp
  have E: "[CHR 0x05] \<notin> {''+'', ''='', ''-''}" by simp
  have X: "key_to_state [CHR 0x10] [CHR 0x05] ''x'' = None"
    by (simp add: key_to_state_def key_to_state_entries_def)
  show ?thesis
    using C6_menu_reward_keys[OF P E, of "''+''" cli0]
          C6_menu_reward_keys[OF P E, of "''=''" cli0]
          C6_menu_reward_keys[OF P E, of "''-''" cli0]
          C6_menu_reward_keys[OF P E, of "''x''" cli0] X
    by (simp add: cli0_def)
qed

section \<open>Example state: flushing the text buffer\<close>

lemma enact_all_Nil: "enact_all W src [] c = c"
  by (simp add: enact_all_def)

lemma enact_all_Cons: "enact_all W src (a # as) c = enact_all W src as (env_enact W a src c)"
  by (simp add: enact_all_def)

lemma enacted_enact_all: "enacted (enact_all W src as c) = enacted c @ map (\<lambda>a. (a, src)) as"
  by (induction as arbitrary: c) (simp_all add: enact_all_Nil enact_all_Cons env_enact_def)

lemma insert_queue_enact_all: "insert_queue (enact_all W src as c) = insert_queue c"
  by (induction as arbitrary: c) (simp_all add: enact_all_Nil enact_all_Cons env_enact_def)

text \<open>Queued actions are applied one by one, in order, before the next key is read.\<close>

lemma ExampleState_loop_drain:
  "ExampleState_loop T I W keys q c = ExampleState_loop T I W keys [] (enact_all W HUMAN q c)"
  by (induction q arbitrary: c) (simp_all add: enact_all_Nil enact_all_Cons)

text \<open>Plain text only grows the buffer.\<close>

lemma ExampleState_loop_text:
  "\<forall>k \<in> set ks. plain_text I k \<Longrightarrow>
   ExampleState_loop T I W (ks @ rest) [] c
     = ExampleState_loop T I W rest [] (c\<lparr>insert_queue := insert_queue c @ concat ks\<rparr>)"
  by (induction ks arbitrary: c) (simp_all add: plain_text_def)

text \<open>
  Text followed by escape, for every tokenizer and workspace: the encoded text is
  enacted, the commit action is appended to the local queue, and the loop breaks with
  the commit action still in that queue.
\<close>

lemma ExampleState_escape_text:
  assumes "\<forall>k \<in> set ks. plain_text I k" and "concat ks \<noteq> []"
  shows "ExampleState_loop T I W (ks @ [CHR 0x1B] # rest) [] (c\<lparr>insert_queue := []\<rparr>)
     = Some (enact_all W HUMAN (encode T (concat ks)) (c\<lparr>insert_queue := []\<rparr>),
             [convert_tokens_to_ids T (KEY_ENTER_TOKEN I)])"
  using assms by (simp add: ExampleState_loop_text)

text \<open>
  Claim C1 (the code departs from it). The claim: in the Example state, buffered text
  followed by escape emits \<open>encode(buffer)\<close> followed by one commit action, applies
  every action still waiting in the queue before exiting, empties the buffer and
  returns to Menu. The code, on the keys \<open>h\<close>, \<open>i\<close>, escape: the two actions of the
  encoded text are enacted, the buffer is emptied and the next state is Menu, but the
  commit action (id 256 here) is only appended to the local queue and is still there,
  never enacted, when the loop breaks.
\<close>

theorem C1_escape_leaves_commit_queued:
  "ExampleState_loop demo_tokenizer demo_inputs demo_workspace
       [''h'', ''i'', [CHR 0x1B]] [] cli0
     = Some (cli0\<lparr>env := [104, 105], enacted := [(104, HUMAN), (105, HUMAN)]\<rparr>, [256])
   \<and> ExampleState_handle_execution demo_tokenizer demo_inputs demo_workspace
       [''h'', ''i'', [CHR 0x1B]] cli0
     = Some (Some MENU, cli0\<lparr>env := [104, 105], enacted := [(104, HUMAN), (105, HUMAN)]\<rparr>)"
  by (simp add: ExampleState_handle_execution_def demo_tokenizer_def demo_inputs_def
        demo_workspace_def cli0_def enact_all_def env_enact_def)

text \<open>
  Once escape is among the keys to come the loop returns, and what it has enacted by
  then starts with what was enacted before, followed by the queued actions.
\<close>

lemma env_enact_enacted: "enacted (env_enact W a src c) = enacted c @ [(a, src)]"
  by (simp add: env_enact_def)

lemma ExampleState_loop_escape_returns_empty_queue:
  "[CHR 0x1B] \<in> set keys \<Longrightarrow>
   \<exists>c' q' post. ExampleState_loop T I W keys [] c = Some (c', q') \<and> enacted c' = enacted c @ post"
proof (induction keys arbitrary: c)
  case Nil
  then show ?case by simp
next
  case (Cons key keys)
  show ?case
  proof (cases "key = [CHR 0x1B]")
    case True
    then show ?thesis by (simp add: enacted_enact_all)
  next
    case False
    with Cons.prems have mem: "[CHR 0x1B] \<in> set keys" by simp
    define q where "q =
      (if key = ''KEY_RESIZE'' then []
       else if key = KEY_CTRL_RIGHT_TOKEN I then
         encode T (insert_queue c) @ [convert_tokens_to_ids T (KEY_ENTER_TOKEN I)]
       else if key \<notin> set (COMMAND_TOKENS I) then []
       else if insert_queue c \<noteq> [] then
         encode T (insert_queue c)
           @ [convert_tokens_to_ids T (KEY_ENTER_TOKEN I), convert_tokens_to_ids T key]
       else [])"
    define c1 where "c1 =
      (if key = ''KEY_RESIZE'' then c
       else if key = KEY_CTRL_RIGHT_TOKEN I then c\<lparr>insert_queue := []\<rparr>
       else if key \<notin> set (COMMAND_TOKENS I) then c\<lparr>insert_queue := insert_queue c @ key\<rparr>
       else if insert_queue c \<noteq> [] then c\<lparr>insert_queue := []\<rparr>
       else env_enact W (convert_tokens_to_ids T key) HUMAN c)"
    have s: "ExampleState_loop T I W (key # keys) [] c = ExampleState_loop T I W keys q c1"
      using False by (simp add: q_def c1_def)
    have "\<exists>pre. enacted c1 = enacted c @ pre"
      by (simp add: c1_def env_enact_enacted)
    then obtain pre where e: "enacted c1 = enacted c @ pre" by blast
    have d: "ExampleState_loop T I W keys q c1 = ExampleState_loop T I W keys [] (enact_all W HUMAN q c1)"
      by (rule ExampleState_loop_drain)
    from Cons.IH[OF mem, of "enact_all W HUMAN q c1"] obtain c' q' post where
      r: "ExampleState_loop T I W keys [] (enact_all W HUMAN q c1) = Some (c', q')"
      and p: "enacted c' = enacted (enact_all W HUMAN q c1) @ post" by blast
    have "enacted c' = enacted c @ (pre @ map (\<lambda>a. (a, HUMAN)) q @ post)"
      using p e by (simp add: enacted_enact_all)
    with s d r show ?thesis by metis
  qed
qed

lemma ExampleState_loop_escape_returns:
  assumes "[CHR 0x1B] \<in> set keys"
  shows "\<exists>c' q' post. ExampleState_loop T I W keys q c = Some (c', q')
           \<and> enacted c' = enacted c @ map (\<lambda>a. (a, HUMAN)) q @ post"
proof -
  from ExampleState_loop_escape_returns_empty_queue[OF assms, of T I W "enact_all W HUMAN q c"]
  obtain c' q' post where
    r: "ExampleState_loop T I W keys [] (enact_all W HUMAN q c) = Some (c', q')"
    and p: "enacted c' = enacted (enact_all W HUMAN q c) @ post" by blast
  have "ExampleState_loop T I W keys q c = Some (c', q')"
    using r ExampleState_loop_drain[of T I W keys q c] by simp
  moreover have "enacted c' = enacted c @ map (\<lambda>a. (a, HUMAN)) q @ post"
    using p by (simp add: enacted_enact_all)
  ultimately show ?thesis by blast
qed

lemma ExampleState_loop_escape_empty_buffer:
  "insert_queue c = [] \<Longrightarrow> ExampleState_loop T I W ([CHR 0x1B] # rest) [] c = Some (c, [])"
  by simp

text \<open>
  Claim C5. In the Example state, when a command key other than escape and the
  insert-block key (and other than the terminal's resize event) arrives while the text
  buffer is non-empty, the queue becomes exactly \<open>encode(buffer)\<close>, then the commit
  action, then the action id of that key, the buffer is cleared and nothing is enacted
  by that step; the loop then enacts the queue in that order before it reads the next
  key. So whenever escape follows, at once or later, the loop returns and its trace
  continues with exactly these actions in this order; and the handler run on typed
  text, the command key and escape returns to Menu having enacted \<open>encode(text)\<close>,
  commit, key id and nothing else.
\<close>

theorem C5_command_key_flushes_buffer_first:
  assumes "key \<in> set (COMMAND_TOKENS I)"
    and "key \<noteq> [CHR 0x1B]" and "key \<noteq> KEY_CTRL_RIGHT_TOKEN I" and "key \<noteq> ''KEY_RESIZE''"
    and "insert_queue (c :: ('env, 'agent) cli) \<noteq> []"
  shows "ExampleState_loop T I W (key # keys) [] c
           = ExampleState_loop T I W keys
               (encode T (insert_queue c)
                  @ [convert_tokens_to_ids T (KEY_ENTER_TOKEN I), convert_tokens_to_ids T key])
               (c\<lparr>insert_queue := []\<rparr>)
       \<and> ExampleState_loop T I W (key # keys) [] c
           = ExampleState_loop T I W keys []
               (enact_all W HUMAN
                  (encode T (insert_queue c)
                     @ [convert_tokens_to_ids T (KEY_ENTER_TOKEN I), convert_tokens_to_ids T key])
                  (c\<lparr>insert_queue := []\<rparr>))
       \<and> enacted (enact_all W HUMAN
                  (encode T (insert_queue c)
                     @ [convert_tokens_to_ids T (KEY_ENTER_TOKEN I), convert_tokens_to_ids T key])
                  (c\<lparr>insert_queue := []\<rparr>))
           = enacted c @ map (\<lambda>a. (a, HUMAN))
               (encode T (insert_queue c)
                  @ [convert_tokens_to_ids T (KEY_ENTER_TOKEN I), convert_tokens_to_ids T key])
       \<and> insert_queue (enact_all W HUMAN
                  (encode T (insert_queue c)
                     @ [convert_tokens_to_ids T (KEY_ENTER_TOKEN I), convert_tokens_to_ids T key])
                  (c\<lparr>insert_queue := []\<rparr>)) = []
       \<and> ExampleState_loop T I W (key # [CHR 0x1B] # rest) [] c
           = Some (enact_all W HUMAN
                     (encode T (insert_queue c)
                        @ [convert_tokens_to_ids T (KEY_ENTER_TOKEN I), convert_tokens_to_ids T key])
                     (c\<lparr>insert_queue := []\<rparr>), [])
       \<and> ([CHR 0x1B] \<in> set keys \<longrightarrow>
            (\<exists>c' q' post.
               ExampleState_loop T I W (key # keys) [] c = Some (c', q')
               \<and> enacted c' = enacted c
                    @ map (\<lambda>a. (a, HUMAN))
                        (encode T (insert_queue c)
                           @ [convert_tokens_to_ids T (KEY_ENTER_TOKEN I),
                              convert_tokens_to_ids T key])
                    @ post))
       \<and> ((\<forall>k \<in> set ks. plain_text I k) \<and> concat ks = insert_queue c \<longrightarrow>
            ExampleState_handle_execution T I W (ks @ key # [CHR 0x1B] # rest)
                (c0 :: ('env, 'agent) cli)
              = Some (Some MENU,
                      enact_all W HUMAN
                        (encode T (insert_queue c)
                           @ [convert_tokens_to_ids T (KEY_ENTER_TOKEN I),
                              convert_tokens_to_ids T key])
                        (c0\<lparr>insert_queue := []\<rparr>)))"
proof -
  let ?q = "encode T (insert_queue c)
              @ [convert_tokens_to_ids T (KEY_ENTER_TOKEN I), convert_tokens_to_ids T key]"
  have step: "ExampleState_loop T I W (key # ks') [] c'
                = ExampleState_loop T I W ks' 
                    (encode T (insert_queue c')
                       @ [convert_tokens_to_ids T (KEY_ENTER_TOKEN I), convert_tokens_to_ids T key])
                    (c'\<lparr>insert_queue := []\<rparr>)"
    if "insert_queue c' \<noteq> []" for ks' and c' :: "('env, 'agent) cli"
    using assms(1-4) that by simp
  have drain: "ExampleState_loop T I W ks' q c'
                = ExampleState_loop T I W ks' [] (enact_all W HUMAN q c')" for ks' q and c' :: "('env, 'agent) cli"
    by (rule ExampleState_loop_drain)
  have 1: "ExampleState_loop T I W (key # keys) [] c
             = ExampleState_loop T I W keys ?q (c\<lparr>insert_queue := []\<rparr>)"
    using step[OF assms(5)] .
  have 2: "ExampleState_loop T I W (key # keys) [] c
             = ExampleState_loop T I W keys [] (enact_all W HUMAN ?q (c\<lparr>insert_queue := []\<rparr>))"
    using 1 drain by simp
  have 3: "enacted (enact_all W HUMAN ?q (c\<lparr>insert_queue := []\<rparr>))
             = enacted c @ map (\<lambda>a. (a, HUMAN)) ?q"
    by (simp add: enacted_enact_all)
  have 4: "insert_queue (enact_all W HUMAN ?q (c\<lparr>insert_queue := []\<rparr>)) = []"
    by (simp add: insert_queue_enact_all)
  have esc: "ExampleState_loop T I W (key # [CHR 0x1B] # rest) [] c'
               = Some (enact_all W HUMAN
                         (encode T (insert_queue c')
                            @ [convert_tokens_to_ids T (KEY_ENTER_TOKEN I), convert_tokens_to_ids T key])
                         (c'\<lparr>insert_queue := []\<rparr>), [])"
    if "insert_queue c' \<noteq> []" for c' :: "('env, 'agent) cli"
  proof -
    let ?q' = "encode T (insert_queue c')
                 @ [convert_tokens_to_ids T (KEY_ENTER_TOKEN I), convert_tokens_to_ids T key]"
    have "ExampleState_loop T I W (key # [CHR 0x1B] # rest) [] c'
            = ExampleState_loop T I W ([CHR 0x1B] # rest) ?q' (c'\<lparr>insert_queue := []\<rparr>)"
      using step[OF that] .
    also have "\<dots> = ExampleState_loop T I W ([CHR 0x1B] # rest) []
                        (enact_all W HUMAN ?q' (c'\<lparr>insert_queue := []\<rparr>))"
      by (rule drain)
    also have "\<dots> = Some (enact_all W HUMAN ?q' (c'\<lparr>insert_queue := []\<rparr>), [])"
      by (rule ExampleState_loop_escape_empty_buffer) (simp add: insert_queue_enact_all)
    finally show ?thesis .
  qed
  have 5: "ExampleState_loop T I W (key # [CHR 0x1B] # rest) [] c
             = Some (enact_all W HUMAN ?q (c\<lparr>insert_queue := []\<rparr>), [])"
    using esc[OF assms(5)] .
  have 6: "[CHR 0x1B] \<in> set keys \<longrightarrow>
            (\<exists>c' q' post.
               ExampleState_loop T I W (key # keys) [] c = Some (c', q')
               \<and> enacted c' = enacted c @ map (\<lambda>a. (a, HUMAN)) ?q @ post)"
  proof
    assume "[CHR 0x1B] \<in> set keys"
    from ExampleState_loop_escape_returns[OF this, of T I W ?q "c\<lparr>insert_queue := []\<rparr>"]
    show "\<exists>c' q' post.
               ExampleState_loop T I W (key # keys) [] c = Some (c', q')
               \<and> enacted c' = enacted c @ map (\<lambda>a. (a, HUMAN)) ?q @ post"
      unfolding 1 by simp
  qed
  have 7: "(\<forall>k \<in> set ks. plain_text I k) \<and> concat ks = insert_queue c \<longrightarrow>
            ExampleState_handle_execution T I W (ks @ key # [CHR 0x1B] # rest) c0
              = Some (Some MENU, enact_all W HUMAN ?q (c0\<lparr>insert_queue := []\<rparr>))"
  proof
    assume h: "(\<forall>k \<in> set ks. plain_text I k) \<and> concat ks = insert_queue c"
    then have ne: "insert_queue (c0\<lparr>insert_queue := concat ks\<rparr>) \<noteq> []"
      using assms(5) by simp
    have "ExampleState_loop T I W (ks @ key # [CHR 0x1B] # rest) [] (c0\<lparr>insert_queue := []\<rparr>)
            = ExampleState_loop T I W (key # [CHR 0x1B] # rest) [] (c0\<lparr>insert_queue := concat ks\<rparr>)"
      using h ExampleState_loop_text[of ks I T W "key # [CHR 0x1B] # rest" "c0\<lparr>insert_queue := []\<rparr>"]
      by simp
    also have "\<dots> = Some (enact_all W HUMAN ?q (c0\<lparr>insert_queue := []\<rparr>), [])"
      using esc[OF ne] h by simp
    finally show "ExampleState_handle_execution T I W (ks @ key # [CHR 0x1B] # rest) c0
              = Some (Some MENU, enact_all W HUMAN ?q (c0\<lparr>insert_queue := []\<rparr>))"
      by (simp add: ExampleState_handle_execution_def)
  qed
  show ?thesis by (intro conjI 1 2 3 4 5 6 7)
qed

theorem C5_command_key_flushes_buffer_first_witness:
  "ExampleState_handle_execution demo_tokenizer demo_inputs demo_workspace
       [''h'', ''i'', ''<UP>'', [CHR 0x1B]] cli0
     = Some (Some MENU,
             cli0\<lparr>env := [104, 105, 256, 257],
                  enacted := [(104, HUMAN), (105, HUMAN), (256, HUMAN), (257, HUMAN)]\<rparr>)
   \<and> ExampleState_loop demo_tokenizer demo_inputs demo_workspace [''<UP>'', [CHR 0x1B]] []
       (cli0\<lparr>insert_queue := ''hi''\<rparr>)
     = Some (cli0\<lparr>env := [104, 105, 256, 257],
                  enacted := [(104, HUMAN), (105, HUMAN), (256, HUMAN), (257, HUMAN)]\<rparr>, [])"
proof -
  let ?c = "cli0\<lparr>insert_queue := ''hi''\<rparr>"
  have a: "''<UP>'' \<in> set (COMMAND_TOKENS demo_inputs)" by (simp add: demo_inputs_def)
  have b: "''<UP>'' \<noteq> [CHR 0x1B]" by simp
  have c: "''<UP>'' \<noteq> KEY_CTRL_RIGHT_TOKEN demo_inputs" by (simp add: demo_inputs_def)
  have d: "''<UP>'' \<noteq> ''KEY_RESIZE''" by simp
  have e: "insert_queue ?c \<noteq> []" by simp
  have p: "(\<forall>k \<in> set [''h'', ''i'']. plain_text demo_inputs k) \<and> concat [''h'', ''i''] = insert_queue ?c"
    by (simp add: plain_text_def demo_inputs_def)
  have q: "encode demo_tokenizer (insert_queue ?c)
             @ [convert_tokens_to_ids demo_tokenizer (KEY_ENTER_TOKEN demo_inputs),
                convert_tokens_to_ids demo_tokenizer ''<UP>''] = [104, 105, 256, 257]"
    by (simp add: demo_tokenizer_def demo_inputs_def)
  have r: "enact_all demo_workspace HUMAN [104, 105, 256, 257] (cli0\<lparr>insert_queue := []\<rparr>)
             = cli0\<lparr>env := [104, 105, 256, 257],
                    enacted := [(104, HUMAN), (105, HUMAN), (256, HUMAN), (257, HUMAN)]\<rparr>"
    by (simp add: enact_all_def env_enact_def demo_workspace_def cli0_def)
  have r': "?c\<lparr>insert_queue := []\<rparr> = cli0\<lparr>insert_queue := []\<rparr>" by simp
  note t = C5_command_key_flushes_buffer_first[OF a b c d e, where T = demo_tokenizer and W = demo_workspace
                and keys = "[[CHR 0x1B]]" and rest = "[]" and ks = "[''h'', ''i'']" and ?c0.0 = cli0,
              unfolded q r' r]
  have 1: "ExampleState_handle_execution demo_tokenizer demo_inputs demo_workspace
       ([''h'', ''i''] @ ''<UP>'' # [[CHR 0x1B]]) cli0
     = Some (Some MENU,
             cli0\<lparr>env := [104, 105, 256, 257],
                  enacted := [(104, HUMAN), (105, HUMAN), (256, HUMAN), (257, HUMAN)]\<rparr>)"
    using t p by blast
  have 2: "ExampleState_loop demo_tokenizer demo_inputs demo_workspace (''<UP>'' # [[CHR 0x1B]]) [] ?c
     = Some (cli0\<lparr>env := [104, 105, 256, 257],
                  enacted := [(104, HUMAN), (105, HUMAN), (256, HUMAN), (257, HUMAN)]\<rparr>, [])"
    using t by blast
  show ?thesis using 1 2 by (simp del: ExampleState_loop.simps)
qed

section \<open>Agent-turn state: bounded turn\<close>

lemma agent_env_enact: "agent (env_enact W a src c) = agent c"
  by (simp add: env_enact_def)

text \<open>
  The loop from any iteration on is the generated actions of the remaining iterations,
  cut after the first end-of-turn marker, enacted in order.
\<close>

lemma AgentTurnState_loop_generated:
  "AgentTurnState_loop A W rs i c
     = enact_all W AI
         (take_through (\<lambda>a. a = eos_token A (agent c))
            (generated_actions A W (nat (max_gen_length A (agent c) - i)) rs c)) c"
proof (induction A W rs i c rule: AgentTurnState_loop.induct)
  case (1 A W rs i c)
  let ?r = "get_action A (agent c) rs (ws_obs W (env c))"
  let ?c' = "env_enact W (snd ?r) AI c"
  show ?case
  proof (cases "i < max_gen_length A (agent c)")
    case False
    then have "AgentTurnState_loop A W rs i c = c"
      by (simp add: AgentTurnState_loop.simps)
    moreover from False have "nat (max_gen_length A (agent c) - i) = 0" by simp
    ultimately show ?thesis by (simp add: enact_all_Nil)
  next
    case lt: True
    then have n: "nat (max_gen_length A (agent c) - i) = Suc (nat (max_gen_length A (agent c) - (i + 1)))"
      by simp
    show ?thesis
    proof (cases "snd ?r = eos_token A (agent ?c')")
      case True
      with lt have "AgentTurnState_loop A W rs i c = ?c'"
        by (subst AgentTurnState_loop.simps) (simp add: Let_def)
      then show ?thesis
        using True unfolding n by (simp add: agent_env_enact enact_all_Cons enact_all_Nil)
    next
      case False
      with lt have eq: "AgentTurnState_loop A W rs i c = AgentTurnState_loop A W (fst ?r) (i + 1) ?c'"
        by (subst AgentTurnState_loop.simps) (simp add: Let_def)
      show ?thesis
        unfolding eq "1.IH"[OF lt refl refl False] n
        using False by (simp add: agent_env_enact enact_all_Cons)
    qed
  qed
qed

lemma take_through_length: "length (take_through P xs) \<le> length xs"
  by (induction xs) simp_all

lemma take_through_butlast: "x \<in> set (butlast (take_through P xs)) \<Longrightarrow> \<not> P x"
  by (induction xs) (auto split: if_splits)

lemma take_through_found:
  "\<exists>x \<in> set xs. P x \<Longrightarrow> take_through P xs = takeWhile (\<lambda>x. \<not> P x) xs @ [hd (dropWhile (\<lambda>x. \<not> P x) xs)]"
  by (induction xs) auto

lemma take_through_none: "\<forall>x \<in> set xs. \<not> P x \<Longrightarrow> take_through P xs = xs"
  by (induction xs) simp_all

lemma length_generated_actions: "length (generated_actions A W n rs c) = n"
  by (induction n arbitrary: rs c) simp_all

text \<open>
  Claim C4. For every configured \<open>max_gen_length\<close> \<open>N \<ge> 0\<close>, one invocation of the
  agent-turn state applies at most \<open>N\<close> actions to the workspace, none when \<open>N = 0\<close>.
  The actions applied are the actions the agent generates, in order, through the first
  one that equals the end-of-turn marker: when a generated action equals the marker,
  that action is applied and is the last one; when none does, all \<open>N\<close> are applied.
  The resulting context is the one obtained by enacting exactly these actions as AI,
  and the next state is Menu.
\<close>

theorem C4_agent_turn_bounded:
  "fst (AgentTurnState_handle_execution A W c) = Some MENU
   \<and> enacted (snd (AgentTurnState_handle_execution A W c))
       = enacted c @ map (\<lambda>a. (a, AI)) (turn_actions A W c)
   \<and> (0 \<le> max_gen_length A (agent c) \<longrightarrow>
        int (length (turn_actions A W c)) \<le> max_gen_length A (agent c))
   \<and> (max_gen_length A (agent c) = 0 \<longrightarrow> turn_actions A W c = [])
   \<and> eos_token A (agent c) \<notin> set (butlast (turn_actions A W c))
   \<and> turn_actions A W c
       = take_through (\<lambda>a. a = eos_token A (agent c))
           (generated_actions A W (nat (max_gen_length A (agent c))) None c)
   \<and> snd (AgentTurnState_handle_execution A W c) = enact_all W AI (turn_actions A W c) c
   \<and> (eos_token A (agent c)
          \<in> set (generated_actions A W (nat (max_gen_length A (agent c))) None c) \<longrightarrow>
        turn_actions A W c
          = takeWhile (\<lambda>a. a \<noteq> eos_token A (agent c))
              (generated_actions A W (nat (max_gen_length A (agent c))) None c)
            @ [eos_token A (agent c)])
   \<and> (eos_token A (agent c)
          \<notin> set (generated_actions A W (nat (max_gen_length A (agent c))) None c) \<longrightarrow>
        turn_actions A W c = generated_actions A W (nat (max_gen_length A (agent c))) None c)"
proof -
  let ?eos = "eos_token A (agent c)"
  let ?g = "generated_actions A W (nat (max_gen_length A (agent c))) None c"
  let ?t = "take_through (\<lambda>a. a = ?eos) ?g"
  have loop: "AgentTurnState_loop A W None 0 c = enact_all W AI ?t c"
    using AgentTurnState_loop_generated[of A W None 0 c] by simp
  have t: "turn_actions A W c = ?t"
    by (simp add: turn_actions_def AgentTurnState_handle_execution_def loop enacted_enact_all comp_def)
  have len: "length ?t \<le> nat (max_gen_length A (agent c))"
    using take_through_length[of "\<lambda>a. a = ?eos" ?g] by (simp add: length_generated_actions)
  have bl: "?eos \<notin> set (butlast ?t)"
    using take_through_butlast[of ?eos "\<lambda>a. a = ?eos" ?g] by blast
  have found: "?eos \<in> set ?g \<longrightarrow> ?t = takeWhile (\<lambda>a. a \<noteq> ?eos) ?g @ [?eos]"
  proof
    assume m: "?eos \<in> set ?g"
    then have ex: "\<exists>x \<in> set ?g. x = ?eos" by blast
    have "dropWhile (\<lambda>a. a \<noteq> ?eos) ?g \<noteq> []" using m by (simp add: dropWhile_eq_Nil_conv)
    then have "hd (dropWhile (\<lambda>a. a \<noteq> ?eos) ?g) = ?eos"
      using hd_dropWhile[of "\<lambda>a. a \<noteq> ?eos" ?g] by simp
    with take_through_found[of ?g "\<lambda>a. a = ?eos", OF ex]
    show "?t = takeWhile (\<lambda>a. a \<noteq> ?eos) ?g @ [?eos]" by simp
  qed
  have notfound: "?eos \<notin> set ?g \<longrightarrow> ?t = ?g"
  proof
    assume "?eos \<notin> set ?g"
    then have "\<forall>x \<in> set ?g. \<not> x = ?eos" by blast
    then show "?t = ?g" by (rule take_through_none)
  qed
  have 1: "fst (AgentTurnState_handle_execution A W c) = Some MENU"
    by (simp add: AgentTurnState_handle_execution_def)
  have 2: "snd (AgentTurnState_handle_execution A W c) = enact_all W AI ?t c"
    by (simp add: AgentTurnState_handle_execution_def loop)
  have 3: "enacted (snd (AgentTurnState_handle_execution A W c)) = enacted c @ map (\<lambda>a. (a, AI)) ?t"
    unfolding 2 by (rule enacted_enact_all)
  have 4: "0 \<le> max_gen_length A (agent c) \<longrightarrow> int (length ?t) \<le> max_gen_length A (agent c)"
    using len by linarith
  have 5: "max_gen_length A (agent c) = 0 \<longrightarrow> ?t = []"
    using len by auto
  show ?thesis
    unfolding t by (intro conjI 1 2 3 4 5 bl found notfound refl)
qed

theorem C4_agent_turn_bounded_witness:
  "generated_actions demo_agent demo_workspace 5 None cli0 = [7, 7, 0, 0, 0]
   \<and> turn_actions demo_agent demo_workspace cli0 = [7, 7, 0]
   \<and> enacted (snd (AgentTurnState_handle_execution demo_agent demo_workspace cli0))
       = [(7, AI), (7, AI), (0, AI)]
   \<and> env (snd (AgentTurnState_handle_execution demo_agent demo_workspace cli0)) = [7, 7, 0]
   \<and> turn_actions (demo_agent\<lparr>max_gen_length := (\<lambda>ag. 0)\<rparr>) demo_workspace cli0 = []
   \<and> turn_actions (demo_agent\<lparr>max_gen_length := (\<lambda>ag. 2)\<rparr>) demo_workspace cli0 = [7, 7]"
proof -
  have five: "nat (max_gen_length demo_agent (agent cli0)) = Suc (Suc (Suc (Suc (Suc 0))))"
    by (simp add: demo_agent_def)
  have two: "nat (max_gen_length (demo_agent\<lparr>max_gen_length := (\<lambda>ag. 2)\<rparr>) (agent cli0)) = Suc (Suc 0)"
    by simp
  have g: "generated_actions demo_agent demo_workspace (Suc (Suc (Suc (Suc (Suc 0))))) None cli0 = [7, 7, 0, 0, 0]"
    by (simp add: demo_agent_def demo_workspace_def cli0_def env_enact_def)
  have g2: "generated_actions (demo_agent\<lparr>max_gen_length := (\<lambda>ag. 2)\<rparr>) demo_workspace (Suc (Suc 0)) None cli0 = [7, 7]"
    by (simp add: demo_agent_def demo_workspace_def cli0_def env_enact_def)
  have e: "eos_token demo_agent (agent cli0) = 0"
    "eos_token (demo_agent\<lparr>max_gen_length := (\<lambda>ag. 2)\<rparr>) (agent cli0) = 0"
    by (simp_all add: demo_agent_def)
  note a = C4_agent_turn_bounded[of demo_agent demo_workspace cli0, unfolded five g e]
  note b = C4_agent_turn_bounded[of "demo_agent\<lparr>max_gen_length := (\<lambda>ag. 0)\<rparr>" demo_workspace cli0]
  note c = C4_agent_turn_bounded[of "demo_agent\<lparr>max_gen_length := (\<lambda>ag. 2)\<rparr>" demo_workspace cli0, unfolded two g2 e]
  have t: "turn_actions demo_agent demo_workspace cli0 = [7, 7, 0]"
    using a by simp
  have s: "snd (AgentTurnState_handle_execution demo_agent demo_workspace cli0)
             = enact_all demo_workspace AI [7, 7, 0] cli0"
    using a t by simp
  have en: "enacted (enact_all demo_workspace AI [7, 7, 0] cli0) = [(7, AI), (7, AI), (0, AI)]"
    "env (enact_all demo_workspace AI [7, 7, 0] cli0) = [7, 7, 0]"
    by (simp_all add: enact_all_def env_enact_def demo_workspace_def cli0_def)
  have z: "turn_actions (demo_agent\<lparr>max_gen_length := (\<lambda>ag. 0)\<rparr>) demo_workspace cli0 = []"
    using b by simp
  have w: "turn_actions (demo_agent\<lparr>max_gen_length := (\<lambda>ag. 2)\<rparr>) demo_workspace cli0 = [7, 7]"
    using c by simp
  have g5: "generated_actions demo_agent demo_workspace 5 None cli0 = [7, 7, 0, 0, 0]"
    using g by (simp only: numeral_eq_Suc pred_numeral_simps Num.BitM.simps)
  show ?thesis
    unfolding s en by (intro conjI g5 t z w refl)
qed

section \<open>Auto-solve state: blank instruction\<close>

lemma py_strip_empty_iff: "py_strip s = [] \<longleftrightarrow> (\<forall>ch \<in> set s. py_isspace ch)"
proof
  assume "py_strip s = []"
  then have all: "\<forall>x \<in> set (dropWhile py_isspace s). py_isspace x"
    by (simp add: py_strip_def)
  have "dropWhile py_isspace s = []"
  proof (rule ccontr)
    assume ne: "dropWhile py_isspace s \<noteq> []"
    then have "\<not> py_isspace (hd (dropWhile py_isspace s))" by (rule hd_dropWhile)
    moreover have "hd (dropWhile py_isspace s) \<in> set (dropWhile py_isspace s)"
      using ne by simp
    ultimately show False using all by blast
  qed
  then show "\<forall>ch \<in> set s. py_isspace ch" by simp
next
  assume "\<forall>ch \<in> set s. py_isspace ch"
  then have d: "dropWhile py_isspace s = []" by simp
  show "py_strip s = []" unfolding py_strip_def d by simp
qed

text \<open>
  Claim C10. When the auto-solve state runs while the instruction text is empty or
  consists only of whitespace, it returns to Menu at once: whatever the solution
  generator would answer, even an exception, the result is Menu with the session
  context unchanged, so the generator is not consulted and no action is applied.
\<close>

theorem C10_auto_solve_blank_instruction:
  assumes "\<forall>ch \<in> set (ws_instruction W (env c)). py_isspace ch"
  shows "AutoSolveState_handle_execution S T W c = Inr (Some MENU, c)"
  using assms by (simp add: AutoSolveState_handle_execution_def py_strip_empty_iff)

theorem C10_auto_solve_blank_instruction_witness:
  "list_all py_isspace
     (ws_instruction (demo_workspace\<lparr>ws_instruction := (\<lambda>e. [CHR 0x20, CHR 0x09, CHR 0x0A])\<rparr>) (env cli0))
   \<and> AutoSolveState_handle_execution failing_solver demo_tokenizer
        (demo_workspace\<lparr>ws_instruction := (\<lambda>e. [CHR 0x20, CHR 0x09, CHR 0x0A])\<rparr>) cli0
      = Inr (Some MENU, cli0)
   \<and> AutoSolveState_handle_execution failing_solver demo_tokenizer
        (demo_workspace\<lparr>ws_instruction := (\<lambda>e. ''x'')\<rparr>) cli0
      = Inl (Exception ''no service'' [])"
proof -
  have h: "\<forall>ch \<in> set (ws_instruction (demo_workspace\<lparr>ws_instruction := (\<lambda>e. [CHR 0x20, CHR 0x09, CHR 0x0A])\<rparr>) (env cli0)). py_isspace ch"
    by (simp add: py_isspace_def)
  have n: "AutoSolveState_handle_execution failing_solver demo_tokenizer
        (demo_workspace\<lparr>ws_instruction := (\<lambda>e. ''x'')\<rparr>) cli0
      = Inl (Exception ''no service'' [])"
    by (simp add: AutoSolveState_handle_execution_def py_strip_def py_isspace_def failing_solver_def)
  show ?thesis
    using h C10_auto_solve_blank_instruction[OF h, of failing_solver demo_tokenizer] n
    by (simp add: list_all_iff)
qed

section \<open>Train state: checkpoint marker and snapshot\<close>

lemma train_agent_marker_mono: "last_trained_step c \<le> last_trained_step (train_agent TR c)"
proof (cases "get_actions_since_action_id (db c) (last_trained_step c) = []")
  case True
  then show ?thesis by (simp add: train_agent_def)
next
  case False
  then have "last (get_actions_since_action_id (db c) (last_trained_step c))
               \<in> set (get_actions_since_action_id (db c) (last_trained_step c))"
    by (rule last_in_set)
  then have "last_trained_step c < fst (last (get_actions_since_action_id (db c) (last_trained_step c)))"
    by (simp add: get_actions_since_action_id_def)
  then show ?thesis
    using False by (simp add: train_agent_def Let_def split: prod.splits)
qed

lemma session_marker_mono: "last_trained_step c \<le> last_trained_step (session TR evs c)"
proof (induction evs arbitrary: c)
  case Nil
  show ?case by simp
next
  case (Cons ev evs)
  show ?case
  proof (cases ev)
    case Train
    have "last_trained_step c \<le> last_trained_step (train_agent TR c)"
      by (rule train_agent_marker_mono)
    also have "\<dots> \<le> last_trained_step (session TR evs (train_agent TR c))"
      by (rule Cons.IH)
    finally show ?thesis using Train by simp
  next
    case (Logged es)
    have "last_trained_step (c\<lparr>db := db c @ es\<rparr>)
            \<le> last_trained_step (session TR evs (c\<lparr>db := db c @ es\<rparr>))"
      by (rule Cons.IH)
    then show ?thesis using Logged by simp
  qed
qed

lemma train_agent_noop:
  "get_actions_since_action_id (db c) (last_trained_step c) = [] \<Longrightarrow> train_agent TR c = c"
  by (simp add: train_agent_def)

lemma db_train_agent: "db (train_agent TR c) = db c"
  by (simp add: train_agent_def Let_def split: prod.splits)

lemma sorted_fst_le_last:
  "sorted (map fst log) \<Longrightarrow> e \<in> set log \<Longrightarrow> fst e \<le> fst (last log)"
  by (induction log) (auto split: if_splits)

lemma last_entries_after:
  "sorted (map fst log) \<Longrightarrow> filter (\<lambda>e. m < fst e) log \<noteq> []
     \<Longrightarrow> last (filter (\<lambda>e. m < fst e) log) = last log"
proof (induction log)
  case Nil
  then show ?case by simp
next
  case (Cons x xs)
  show ?case
  proof (cases "filter (\<lambda>e. m < fst e) xs = []")
    case False
    then have "xs \<noteq> []" by auto
    moreover have "last (filter (\<lambda>e. m < fst e) xs) = last xs"
      using Cons False by simp
    ultimately show ?thesis using False by simp
  next
    case True
    with Cons.prems(2) have px: "m < fst x" by (auto split: if_splits)
    have "xs = []"
    proof (rule ccontr)
      assume "xs \<noteq> []"
      then obtain y where y: "y \<in> set xs" by (cases xs) auto
      with Cons.prems(1) have "fst x \<le> fst y" by auto
      with px have "m < fst y" by simp
      with y have "y \<in> set (filter (\<lambda>e. m < fst e) xs)" by simp
      with True show False by simp
    qed
    with px show ?thesis by simp
  qed
qed

lemma nothing_after_last:
  assumes "sorted (map fst log)" and "get_actions_since_action_id log m \<noteq> []"
  shows "get_actions_since_action_id log (fst (last (get_actions_since_action_id log m))) = []"
proof -
  have l: "last (get_actions_since_action_id log m) = last log"
    using assms by (simp add: get_actions_since_action_id_def last_entries_after)
  have "\<forall>e \<in> set log. \<not> fst (last log) < fst e"
    using sorted_fst_le_last[OF assms(1)] by (auto simp: not_less)
  then show ?thesis unfolding l by (simp add: get_actions_since_action_id_def)
qed

lemma train_agent_twice:
  assumes "sorted (map fst (db c))"
  shows "train_agent TR (train_agent TR c) = train_agent TR c"
proof (cases "get_actions_since_action_id (db c) (last_trained_step c) = []")
  case True
  then show ?thesis by (simp add: train_agent_noop)
next
  case False
  have m: "last_trained_step (train_agent TR c)
             = fst (last (get_actions_since_action_id (db c) (last_trained_step c)))"
    using False by (simp add: train_agent_def Let_def split: prod.splits)
  have "get_actions_since_action_id (db (train_agent TR c)) (last_trained_step (train_agent TR c)) = []"
    unfolding m db_train_agent using assms False by (rule nothing_after_last)
  then show ?thesis by (rule train_agent_noop)
qed

lemma session_append: "session TR (evs @ evs') c = session TR evs' (session TR evs c)"
  by (induction TR evs c rule: session.induct) simp_all

lemma demo_train:
  "train_agent demo_trainer demo_train_cli
     = demo_train_cli\<lparr>agent := 2, store := [[104, 105, 106], [104, 105], [104, 105, 106]],
         last_trained_env := 1, last_trained_step := 2, last_trained_env_state := Some 2\<rparr>"
  by (simp add: train_agent_def get_actions_since_action_id_def demo_trainer_def
        demo_train_cli_def deepcopy_def)

text \<open>
  Claim C2 as stated fails. The claim: when \<^verbatim>\<open>train_agent\<close> finds entries after the
  marker, the snapshot that the next call replays against is replaced by a fresh,
  independent deep copy of the live workspace. In the code the next call reads
  \<^verbatim>\<open>cli.last_trained_env\<close>, which is assigned what \<^verbatim>\<open>train_on_actions\<close> returned;
  the deep copy of the live workspace goes to another attribute,
  \<^verbatim>\<open>cli.last_trained_env_state\<close>. Here the baseline after training is still object 1,
  the old snapshot with the two logged actions replayed onto it; it is not the copy
  (object 2) and its value differs from the live workspace's.
\<close>

theorem C2_baseline_is_replay_result_counterexample:
  "last_trained_env (train_agent demo_trainer demo_train_cli) = last_trained_env demo_train_cli
   \<and> store (train_agent demo_trainer demo_train_cli)
        ! last_trained_env (train_agent demo_trainer demo_train_cli) = [104, 105]
   \<and> store (train_agent demo_trainer demo_train_cli)
        ! env (train_agent demo_trainer demo_train_cli) = [104, 105, 106]
   \<and> last_trained_env_state (train_agent demo_trainer demo_train_cli) = Some 2
   \<and> last_trained_env (train_agent demo_trainer demo_train_cli) \<noteq> 2"
  unfolding demo_train by (simp add: demo_train_cli_def)

text \<open>
  Claim C2, amended. When \<^verbatim>\<open>train_agent\<close> finds at least one entry after the marker,
  it hands exactly those entries, in log order, with the stored snapshot to
  \<^verbatim>\<open>train_on_actions\<close>, sets the marker to the id of the last of them, and makes
  the workspace returned by \<^verbatim>\<open>train_on_actions\<close> the snapshot that the next call
  will replay against. A fresh deep copy of the live workspace is stored apart, in
  \<^verbatim>\<open>last_trained_env_state\<close>: a new object, with the live workspace's value, not
  aliased with the live workspace (a later change of the live workspace leaves it as it
  is).
\<close>

theorem C2_train_advances_checkpoint:
  assumes "get_actions_since_action_id (db c) (last_trained_step c) = acts" and "acts \<noteq> []"
    and "TR (agent c) (store c) (last_trained_env c) acts = (ag', st', r)"
    and "env c < length st'"
  shows "last_trained_step (train_agent TR c) = fst (last acts)
       \<and> agent (train_agent TR c) = ag'
       \<and> last_trained_env (train_agent TR c) = r
       \<and> env (train_agent TR c) = env c
       \<and> store (train_agent TR c) = st' @ [st' ! env c]
       \<and> last_trained_env_state (train_agent TR c) = Some (length st')
       \<and> length st' \<noteq> env (train_agent TR c)
       \<and> store (train_agent TR c) ! length st' = store (train_agent TR c) ! env (train_agent TR c)
       \<and> (\<forall>v. (store (train_agent TR c))[env (train_agent TR c) := v] ! length st'
               = store (train_agent TR c) ! length st')"
  using assms by (simp add: train_agent_def deepcopy_def nth_append)

theorem C2_train_advances_checkpoint_witness:
  "get_actions_since_action_id (db demo_train_cli) (last_trained_step demo_train_cli) = [(1, 104), (2, 105)]
   \<and> demo_trainer (agent demo_train_cli) (store demo_train_cli) (last_trained_env demo_train_cli)
        [(1, 104), (2, 105)] = (2, [[104, 105, 106], [104, 105]], 1)
   \<and> last_trained_step (train_agent demo_trainer demo_train_cli) = 2
   \<and> last_trained_env (train_agent demo_trainer demo_train_cli) = 1
   \<and> last_trained_env_state (train_agent demo_trainer demo_train_cli) = Some 2
   \<and> store (train_agent demo_trainer demo_train_cli) = [[104, 105, 106], [104, 105], [104, 105, 106]]"
proof -
  have a: "get_actions_since_action_id (db demo_train_cli) (last_trained_step demo_train_cli)
             = [(1, 104), (2, 105)]"
    by (simp add: get_actions_since_action_id_def demo_train_cli_def)
  have b: "[(1::int, 104::int), (2, 105)] \<noteq> []" by simp
  have c: "demo_trainer (agent demo_train_cli) (store demo_train_cli)
             (last_trained_env demo_train_cli) [(1, 104), (2, 105)]
             = (2, [[104, 105, 106], [104, 105]], 1)"
    by (simp add: demo_trainer_def demo_train_cli_def)
  have d: "env demo_train_cli < length [[104, 105, 106], [104, 105 :: int]]"
    by (simp add: demo_train_cli_def)
  show ?thesis
    using C2_train_advances_checkpoint[where TR = demo_trainer and c = demo_train_cli, OF a b c d] a c by (simp add: demo_train_cli_def)
qed

text \<open>
  Claim C3. The checkpoint marker never decreases: not in one call of
  \<^verbatim>\<open>train_agent\<close>, and not along any session of training calls with log appends in
  between. A call for which the log store returns no entries after the marker leaves
  the whole session context (marker, snapshot and agent included) unchanged; so, the
  log being in sequence order, a second training call right after the first, with no
  new entries, is a no-op.
\<close>

theorem C3_marker_monotone_and_idle_training:
  "last_trained_step c \<le> last_trained_step (train_agent TR c)
   \<and> last_trained_step (session TR evs c) \<le> last_trained_step (session TR (evs @ evs') c)
   \<and> (get_actions_since_action_id (db c) (last_trained_step c) = [] \<longrightarrow> train_agent TR c = c)
   \<and> (sorted (map fst (db c)) \<longrightarrow> train_agent TR (train_agent TR c) = train_agent TR c)"
  using train_agent_marker_mono[of c TR] session_marker_mono[of "session TR evs c" TR evs']
        train_agent_noop[of c TR] train_agent_twice[of c TR]
  by (simp add: session_append)

theorem C3_marker_monotone_and_idle_training_witness:
  "sorted (map fst (db (demo_train_cli\<lparr>db := [(1, 104), (2, 105), (3, 106)]\<rparr>)))
   \<and> last_trained_step (train_agent demo_trainer (demo_train_cli\<lparr>db := [(1, 104), (2, 105), (3, 106)]\<rparr>)) = 3
   \<and> train_agent demo_trainer (train_agent demo_trainer (demo_train_cli\<lparr>db := [(1, 104), (2, 105), (3, 106)]\<rparr>))
       = train_agent demo_trainer (demo_train_cli\<lparr>db := [(1, 104), (2, 105), (3, 106)]\<rparr>)
   \<and> get_actions_since_action_id (db (demo_train_cli\<lparr>db := []\<rparr>)) (last_trained_step (demo_train_cli\<lparr>db := []\<rparr>)) = []
   \<and> train_agent demo_trainer (demo_train_cli\<lparr>db := []\<rparr>) = demo_train_cli\<lparr>db := []\<rparr>"
proof -
  have s: "sorted (map fst (db (demo_train_cli\<lparr>db := [(1, 104), (2, 105), (3, 106)]\<rparr>)))"
    by simp
  have m: "last_trained_step (train_agent demo_trainer (demo_train_cli\<lparr>db := [(1, 104), (2, 105), (3, 106)]\<rparr>)) = 3"
    by (simp add: train_agent_def get_actions_since_action_id_def demo_trainer_def
          demo_train_cli_def deepcopy_def)
  have e: "get_actions_since_action_id (db (demo_train_cli\<lparr>db := []\<rparr>)) (last_trained_step (demo_train_cli\<lparr>db := []\<rparr>)) = []"
    by (simp add: get_actions_since_action_id_def)
  show ?thesis
    using C3_marker_monotone_and_idle_training[of "demo_train_cli\<lparr>db := [(1, 104), (2, 105), (3, 106)]\<rparr>" demo_trainer "[]" "[]"]
          C3_marker_monotone_and_idle_training[of "demo_train_cli\<lparr>db := []\<rparr>" demo_trainer "[]" "[]"] s m e
    by simp
qed

section \<open>Save-model state: configuration, empty name, save\<close>

text \<open>
  Claim C8. In the save-model state: without a configured save directory an error
  view is shown and the state returns to Menu, nothing saved; with an empty entered
  name the state returns to itself, nothing saved; with a non-empty entered name the
  agent is saved under directory/name (when the save does not raise), that name
  becomes the remembered loaded name and the state returns to Menu. The default name
  offered to the prompt is the loaded model name, or the generated \<open>model_\<close> followed
  by the random identifier when none is loaded.
\<close>

theorem C8_save_model_cases:
  "(model_save_dir c = None \<or> model_save_dir c = Some [] \<longrightarrow>
      SaveModelState_handle_execution random_id get_text_input agent_save c fs
        = Inr (Some MENU,
               c\<lparr>shown := shown c @ [''Error: model_save_dir not set in config'',
                                      ''Press any key to continue...'']\<rparr>, fs))
   \<and> (model_save_dir c = Some d \<and> d \<noteq> [] \<and> get_text_input (default_name random_id c) = Some [] \<longrightarrow>
      SaveModelState_handle_execution random_id get_text_input agent_save c fs
        = Inr (Some SAVE_MODEL,
               c\<lparr>shown := shown c @ [''Enter model name to save: '', ''[ENTER] save | [ESC] cancel'',
                                      ''Error: Model needs a name to save'',
                                      ''Press any key to try again...'']\<rparr>, fs))
   \<and> (model_save_dir c = Some d \<and> d \<noteq> [] \<and> get_text_input (default_name random_id c) = Some name
        \<and> name \<noteq> [] \<and> agent_save (path_join d name) (agent c) fs = Inr fs' \<longrightarrow>
      SaveModelState_handle_execution random_id get_text_input agent_save c fs
        = Inr (Some MENU,
               c\<lparr>loaded_model_name := Some name,
                 shown := shown c @ [''Enter model name to save: '', ''[ENTER] save | [ESC] cancel'',
                                      ''Model saved to: '' @ path_join d name,
                                      ''Press any key to continue...'']\<rparr>, fs'))
   \<and> (loaded_model_name c = Some n \<and> n \<noteq> [] \<longrightarrow> default_name random_id c = n)
   \<and> (loaded_model_name c = None \<longrightarrow> default_name random_id c = ''model_'' @ random_id)"
  by (auto simp: SaveModelState_handle_execution_def show_lines_def default_name_def
        generate_default_model_name_def)

theorem C8_save_model_cases_witness:
  "SaveModelState_handle_execution ''k3x9ab'' (\<lambda>d. Some d) demo_save cli0 []
     = Inr (Some MENU,
            cli0\<lparr>shown := [''Error: model_save_dir not set in config'',
                            ''Press any key to continue...'']\<rparr>, [])
   \<and> SaveModelState_handle_execution ''k3x9ab'' (\<lambda>d. Some []) demo_save
        (cli0\<lparr>model_save_dir := Some ''models''\<rparr>) []
     = Inr (Some SAVE_MODEL,
            cli0\<lparr>model_save_dir := Some ''models'',
                 shown := [''Enter model name to save: '', ''[ENTER] save | [ESC] cancel'',
                           ''Error: Model needs a name to save'',
                           ''Press any key to try again...'']\<rparr>, [])
   \<and> SaveModelState_handle_execution ''k3x9ab'' (\<lambda>d. Some d) demo_save
        (cli0\<lparr>model_save_dir := Some ''models''\<rparr>) []
     = Inr (Some MENU,
            cli0\<lparr>model_save_dir := Some ''models'', loaded_model_name := Some ''model_k3x9ab'',
                 shown := [''Enter model name to save: '', ''[ENTER] save | [ESC] cancel'',
                           ''Model saved to: models/model_k3x9ab'',
                           ''Press any key to continue...'']\<rparr>,
            [(''models/model_k3x9ab'', 0)])
   \<and> default_name ''k3x9ab'' (cli0\<lparr>loaded_model_name := Some ''best''\<rparr>) = ''best''"
proof -
  let ?c = "cli0\<lparr>model_save_dir := Some ''models''\<rparr>"
  have n: "loaded_model_name cli0 = None" "loaded_model_name ?c = None"
    and d0: "model_save_dir cli0 = None" and a: "agent ?c = 0" and s: "shown cli0 = []"
    by (simp_all add: cli0_def)
  have dn: "default_name ''k3x9ab'' ?c = ''model_k3x9ab''"
    using C8_save_model_cases[where c = ?c and random_id = "''k3x9ab''" and get_text_input = "\<lambda>d. Some d"
               and agent_save = demo_save and fs = "[]" and d = "[]"
               and name = "[]" and fs' = "[]" and n = "[]"] n
    by simp
  have sv: "demo_save (path_join ''models'' ''model_k3x9ab'') (agent ?c) []
              = Inr [(''models/model_k3x9ab'', 0)]"
    by (simp add: demo_save_def path_join_def a)
  have 1: "SaveModelState_handle_execution ''k3x9ab'' (\<lambda>d. Some d) demo_save cli0 []
     = Inr (Some MENU,
            cli0\<lparr>shown := [''Error: model_save_dir not set in config'',
                            ''Press any key to continue...'']\<rparr>, [])"
    using C8_save_model_cases[where c = cli0 and random_id = "''k3x9ab''" and get_text_input = "\<lambda>d. Some d"
               and agent_save = demo_save and fs = "[]" and d = "[]"
               and name = "[]" and fs' = "[]" and n = "[]"] d0 s
    by simp
  have 2: "SaveModelState_handle_execution ''k3x9ab'' (\<lambda>d. Some []) demo_save ?c []
     = Inr (Some SAVE_MODEL,
            ?c\<lparr>shown := [''Enter model name to save: '', ''[ENTER] save | [ESC] cancel'',
                           ''Error: Model needs a name to save'',
                           ''Press any key to try again...'']\<rparr>, [])"
    using C8_save_model_cases[where c = ?c and random_id = "''k3x9ab''" and get_text_input = "\<lambda>d. Some []"
               and agent_save = demo_save and fs = "[]" and d = "''models''"
               and name = "[]" and fs' = "[]" and n = "[]"] s
    by simp
  have 3: "SaveModelState_handle_execution ''k3x9ab'' (\<lambda>d. Some d) demo_save ?c []
     = Inr (Some MENU,
            ?c\<lparr>loaded_model_name := Some ''model_k3x9ab'',
                 shown := [''Enter model name to save: '', ''[ENTER] save | [ESC] cancel'',
                           ''Model saved to: models/model_k3x9ab'',
                           ''Press any key to continue...'']\<rparr>,
            [(''models/model_k3x9ab'', 0)])"
    using C8_save_model_cases[where c = ?c and random_id = "''k3x9ab''" and get_text_input = "\<lambda>d. Some d"
               and agent_save = demo_save and fs = "[]" and d = "''models''"
               and name = "''model_k3x9ab''" and fs' = "[(''models/model_k3x9ab'', 0)]"
               and n = "[]"] s dn sv
    by (simp add: path_join_def)
  have 4: "default_name ''k3x9ab'' (cli0\<lparr>loaded_model_name := Some ''best''\<rparr>) = ''best''"
    using C8_save_model_cases[where c = "cli0\<lparr>loaded_model_name := Some ''best''\<rparr>" and random_id = "''k3x9ab''" and get_text_input = "\<lambda>d. Some d"
               and agent_save = demo_save and fs = "[]" and d = "[]"
               and name = "[]" and fs' = "[]" and n = "''best''"]
    by simp
  show ?thesis using 1 2 3 4 by simp
qed

section \<open>Load-model state: failures do not stop the loop\<close>

lemma last_loaded_Cons:
  "last_loaded ((m, r) # os) before
     = last_loaded os (if r = None then Some m else before)"
  by (auto simp: last_loaded_def split: list.splits)

lemma load_outcomes_names: "map fst (load_outcomes L d ms a) = ms"
  by (induction ms arbitrary: a) simp_all

lemma load_models_outcomes:
  "loaded_model_name (load_models L d ms c)
     = last_loaded (load_outcomes L d ms (agent c)) (loaded_model_name c)
   \<and> shown (load_models L d ms c)
     = shown c @ concat (map load_report (load_outcomes L d ms (agent c)))"
proof (induction ms arbitrary: c)
  case Nil
  show ?case by (simp add: last_loaded_def)
next
  case (Cons m ms)
  obtain a' r where l: "L (path_join d m) (agent c) = (a', r)" by (cases "L (path_join d m) (agent c)")
  show ?case
  proof (cases r)
    case None
    with l Cons[of "show_lines [''Loading model '' @ quoted m @ ''...''] c \<lparr>agent := a', loaded_model_name := Some m\<rparr>"]
    show ?thesis by (simp add: show_lines_def last_loaded_Cons)
  next
    case (Some e)
    with l Cons[of "show_lines [''Error loading model '' @ quoted m @ '': '' @ message e,
                            ''Press any key to continue...'']
                  (show_lines [''Loading model '' @ quoted m @ ''...''] c \<lparr>agent := a'\<rparr>)"]
    show ?thesis by (simp add: show_lines_def last_loaded_Cons)
  qed
qed

lemma agent_load_models:
  "agent (load_models L d ms c) = fold (\<lambda>m a. fst (L (path_join d m) a)) ms (agent c)"
proof (induction ms arbitrary: c)
  case Nil
  show ?case by simp
next
  case (Cons m ms)
  obtain a' r where l: "L (path_join d m) (agent c) = (a', r)" by (cases "L (path_join d m) (agent c)")
  show ?case using l Cons by (cases r) (simp_all add: show_lines_def)
qed

text \<open>
  Claim C7. For every sequence of selected models the loop loads them in selection
  order, each on the agent the previous load left, whether that load raised or not; a
  load that raises is reported on the terminal and the loop goes on; and after the
  loop the remembered name is the name of the last model whose load succeeded,
  unchanged when every load failed.
\<close>

theorem C7_load_models_last_success:
  "agent (load_models L d ms c) = fold (\<lambda>m a. fst (L (path_join d m) a)) ms (agent c)
   \<and> map fst (load_outcomes L d ms (agent c)) = ms
   \<and> shown (load_models L d ms c)
       = shown c @ concat (map load_report (load_outcomes L d ms (agent c)))
   \<and> loaded_model_name (load_models L d ms c)
       = last_loaded (load_outcomes L d ms (agent c)) (loaded_model_name c)
   \<and> (list_all (\<lambda>out. snd out \<noteq> None) (load_outcomes L d ms (agent c)) \<longrightarrow>
        loaded_model_name (load_models L d ms c) = loaded_model_name c)"
proof -
  have all_fail: "list_all (\<lambda>out. snd out \<noteq> None) outs \<Longrightarrow> last_loaded outs b = b" for outs b
    by (induction outs) (auto simp: last_loaded_def)
  show ?thesis
    using load_models_outcomes[of L d ms c] agent_load_models[of L d ms c]
      load_outcomes_names[of L d ms "agent c"]
      all_fail[of "load_outcomes L d ms (agent c)" "loaded_model_name c"]
    by simp
qed

lemma LoadModelState_runs_loop:
  assumes "model_save_dir c = Some d" and "d \<noteq> []" and "listdir F d = Inr names"
    and "filter (\<lambda>f. isdir F (path_join d f)) names = dirs" and "dirs \<noteq> []"
    and "sel dirs \<noteq> []"
  shows "\<exists>c'. LoadModelState_handle_execution F sel L c = Inr (Some MENU, c')
           \<and> loaded_model_name c' = loaded_model_name (load_models L d (sel dirs) c)
           \<and> agent c' = agent (load_models L d (sel dirs) c)"
  using assms by (simp add: LoadModelState_handle_execution_def Let_def show_lines_def)

theorem C7_load_models_last_success_witness:
  "load_outcomes demo_loader ''models'' [''a'', ''b'', ''c''] 0
       = [(''a'', None), (''b'', Some (Exception ''bad checkpoint'' ''Traceback'')), (''c'', None)]
   \<and> loaded_model_name (load_models demo_loader ''models'' [''a'', ''b'', ''c''] cli0) = Some ''c''
   \<and> list_all (\<lambda>out. snd out \<noteq> None) (load_outcomes demo_loader ''models'' [''b''] 0)
   \<and> loaded_model_name (load_models demo_loader ''models'' [''b''] cli0) = None"
proof -
  have a: "agent cli0 = 0" and n: "loaded_model_name cli0 = None"
    by (simp_all add: cli0_def)
  have o: "load_outcomes demo_loader ''models'' [''a'', ''b'', ''c''] 0
       = [(''a'', None), (''b'', Some (Exception ''bad checkpoint'' ''Traceback'')), (''c'', None)]"
    by (simp add: demo_loader_def path_join_def)
  have b: "load_outcomes demo_loader ''models'' [''b''] 0
       = [(''b'', Some (Exception ''bad checkpoint'' ''Traceback''))]"
    by (simp add: demo_loader_def path_join_def)
  have l: "last_loaded [(''a'', None), (''b'', Some (Exception ''bad checkpoint'' ''Traceback'')),
             (''c'', None)] None = Some ''c''"
    by (simp add: last_loaded_def)
  have 1: "loaded_model_name (load_models demo_loader ''models'' [''a'', ''b'', ''c''] cli0) = Some ''c''"
    using C7_load_models_last_success[of demo_loader "''models''" "[''a'', ''b'', ''c'']" cli0]
    unfolding a n o l by (elim conjE)
  have 2: "loaded_model_name (load_models demo_loader ''models'' [''b''] cli0) = None"
    using C7_load_models_last_success[of demo_loader "''models''" "[''b'']" cli0]
    unfolding a n b by (simp add: last_loaded_def del: load_models.simps)
  show ?thesis using o 1 b 2 by (simp del: load_models.simps)
qed

section \<open>Eval state: one result per item\<close>

lemma eval_outcomes_items: "map fst (eval_outcomes R p items a) = items"
  by (induction items arbitrary: a) simp_all

lemma run_evaluations_results:
  "snd (run_evaluations R p items c results)
     = fold (\<lambda>out. AList.update (fst (recorded out)) (snd (recorded out)))
         (eval_outcomes R p items (agent c)) results"
proof (induction items arbitrary: c results)
  case Nil
  show ?case by simp
next
  case (Cons item items)
  obtain a' r where l: "R (agent c) (path_join p item) = (a', r)"
    by (cases "R (agent c) (path_join p item)")
  show ?case
    using l Cons by (cases r) (simp_all add: show_lines_def)
qed

lemma fold_update_keys:
  "fst ` set (fold (\<lambda>out. AList.update (fst (f out)) (snd (f out))) outs results)
     = fst ` set results \<union> (\<lambda>out. fst (f out)) ` set outs"
proof (induction outs arbitrary: results)
  case Nil
  show ?case by simp
next
  case (Cons out outs)
  show ?case
    unfolding fold_simps Cons.IH AList.dom_update by auto
qed

lemma fold_update_distinct:
  "distinct (map fst results) \<Longrightarrow>
   distinct (map fst (fold (\<lambda>out. AList.update (fst (f out)) (snd (f out))) outs results))"
  by (induction outs arbitrary: results) (simp_all add: AList.distinct_update)

lemma update_fresh: "k \<notin> set (map fst al) \<Longrightarrow> AList.update k v al = al @ [(k, v)]"
  by (induction al) auto

lemma fold_update_fresh:
  "distinct (map (\<lambda>out. fst (f out)) outs) \<Longrightarrow>
   set (map (\<lambda>out. fst (f out)) outs) \<inter> set (map fst results) = {} \<Longrightarrow>
   fold (\<lambda>out. AList.update (fst (f out)) (snd (f out))) outs results = results @ map f outs"
proof (induction outs arbitrary: results)
  case Nil
  show ?case by simp
next
  case (Cons out outs)
  have fresh: "fst (f out) \<notin> set (map fst results)" using Cons.prems(2) by auto
  have "fold (\<lambda>out. AList.update (fst (f out)) (snd (f out))) outs (results @ [f out])
          = (results @ [f out]) @ map f outs"
    using Cons.prems by (intro Cons.IH) auto
  then show ?case using fresh by (simp add: update_fresh)
qed

lemma shown_run_evaluations:
  "shown (fst (run_evaluations R p items c results))
     = shown c @ concat (map (\<lambda>item. [[CHR 0x0A] @ ''Running evaluation: '' @ item @ [CHR 0x0A],
                                         replicate 40 CHR ''='']) items)"
proof (induction items arbitrary: c results)
  case Nil
  show ?case by simp
next
  case (Cons item items)
  obtain a' r where l: "R (agent c) (path_join p item) = (a', r)"
    by (cases "R (agent c) (path_join p item)")
  show ?case
    using l Cons by (cases r) (simp_all add: show_lines_def)
qed

lemma fst_recorded: "fst (recorded out) = fst out"
  by (cases out rule: recorded.cases) simp_all

lemma run_evaluations_distinct:
  assumes "distinct items"
  shows "snd (run_evaluations R p items c []) = map recorded (eval_outcomes R p items (agent c))"
proof -
  have d: "distinct (map (\<lambda>out. fst (recorded out)) (eval_outcomes R p items (agent c)))"
    using assms by (simp add: fst_recorded eval_outcomes_items)
  show ?thesis
    unfolding run_evaluations_results
    using fold_update_fresh[of recorded "eval_outcomes R p items (agent c)" "[]"] d by simp
qed

lemma run_evaluations_keys:
  "distinct (map fst (snd (run_evaluations R p items c [])))
   \<and> fst ` set (snd (run_evaluations R p items c [])) = set items"
proof -
  have "(\<lambda>out. fst (recorded out)) ` set (eval_outcomes R p items (agent c))
          = fst ` set (eval_outcomes R p items (agent c))"
    by (simp add: fst_recorded)
  also have "\<dots> = set items"
    using eval_outcomes_items[of R p items "agent c"] by (metis set_map)
  finally show ?thesis
    unfolding run_evaluations_results
    by (simp add: fold_update_keys fold_update_distinct)
qed

text \<open>
  The context after the loop: the agent has gone through every evaluation in order,
  and two lines were written per item.
\<close>

lemma run_evaluations_context:
  "fst (run_evaluations R p items c results)
     = c\<lparr>agent := fold (\<lambda>item a. fst (R a (path_join p item))) items (agent c),
         shown := shown c
           @ concat (map (\<lambda>item. [[CHR 0x0A] @ ''Running evaluation: '' @ item @ [CHR 0x0A],
                                   replicate 40 CHR ''='']) items)\<rparr>"
proof (induction items arbitrary: c results)
  case Nil
  show ?case by simp
next
  case (Cons item items)
  obtain a' r where l: "R (agent c) (path_join p item) = (a', r)"
    by (cases "R (agent c) (path_join p item)")
  show ?case
    using l Cons by (cases r) (simp_all add: show_lines_def)
qed

text \<open>
  Claim C9. During multi-item evaluation every selected item is evaluated, in order;
  an exception raised for an item is caught for that item alone and recorded as its
  result, with the error message and the stack trace; the results hold exactly one
  entry per selected item, and (the selection being duplicate-free) they are the
  recorded outcomes in selection order. The handler then returns to Menu with the
  agent left by the last evaluation, having written, after the two progress lines of
  each item, one block per selected item in selection order: the header with the
  item's name and one line per metric of its recorded result (for a failed item the
  lines \<open>error: message\<close> and \<open>stack_trace: trace\<close>), and the closing prompt.
\<close>

theorem C9_eval_failures_recorded_per_item:
  "map fst (eval_outcomes R p items (agent c)) = items
   \<and> distinct (map fst (snd (run_evaluations R p items c [])))
   \<and> fst ` set (snd (run_evaluations R p items c [])) = set items
   \<and> (distinct items \<longrightarrow>
        snd (run_evaluations R p items c []) = map recorded (eval_outcomes R p items (agent c)))
   \<and> recorded (item, Inl e) = (item, [(''error'', message e), (''stack_trace'', stack_trace e)])
   \<and> recorded (item, Inr r) = (item, r)
   \<and> (eval_data_path c = Some p \<and> p \<noteq> [] \<and> path_exists F p \<and> listdir F p = Inr names
        \<and> filter (\<lambda>f. path_exists F (path_join p f)) names \<noteq> []
        \<and> sel (filter (\<lambda>f. path_exists F (path_join p f)) names) = items \<and> items \<noteq> [] \<longrightarrow>
        EvalState_handle_execution F sel R c
          = Inr (Some MENU,
                 show_lines (concat (map display_result (snd (run_evaluations R p items c [])))
                               @ [''Press any key to continue...''])
                   (fst (run_evaluations R p items c []))))
   \<and> (eval_data_path c = Some p \<and> p \<noteq> [] \<and> path_exists F p \<and> listdir F p = Inr names
        \<and> filter (\<lambda>f. path_exists F (path_join p f)) names \<noteq> []
        \<and> sel (filter (\<lambda>f. path_exists F (path_join p f)) names) = items \<and> items \<noteq> []
        \<and> distinct items \<longrightarrow>
        EvalState_handle_execution F sel R c
          = Inr (Some MENU,
                 c\<lparr>agent := fold (\<lambda>item a. fst (R a (path_join p item))) items (agent c),
                   shown := shown c
                     @ concat (map (\<lambda>item. [[CHR 0x0A] @ ''Running evaluation: '' @ item @ [CHR 0x0A],
                                             replicate 40 CHR ''='']) items)
                     @ concat (map (\<lambda>out. (''=== '' @ fst out @ '' ==='')
                                            # map (\<lambda>mv. fst mv @ '': '' @ snd mv) (snd out))
                                 (map recorded (eval_outcomes R p items (agent c))))
                     @ [''Press any key to continue...'']\<rparr>))"
proof -
  let ?hyp = "eval_data_path c = Some p \<and> p \<noteq> [] \<and> path_exists F p \<and> listdir F p = Inr names
        \<and> filter (\<lambda>f. path_exists F (path_join p f)) names \<noteq> []
        \<and> sel (filter (\<lambda>f. path_exists F (path_join p f)) names) = items \<and> items \<noteq> []"
  have h: "?hyp \<longrightarrow>
        EvalState_handle_execution F sel R c
          = Inr (Some MENU,
                 show_lines (concat (map display_result (snd (run_evaluations R p items c [])))
                               @ [''Press any key to continue...''])
                   (fst (run_evaluations R p items c [])))"
    by (auto simp: EvalState_handle_execution_def Let_def split: prod.splits)
  have dr: "display_result = (\<lambda>out. (''=== '' @ fst out @ '' ==='')
                                      # map (\<lambda>mv. fst mv @ '': '' @ snd mv) (snd out))"
    by (rule ext) (simp add: display_result_def case_prod_beta)
  have k: "eval_data_path c = Some p \<and> p \<noteq> [] \<and> path_exists F p \<and> listdir F p = Inr names
        \<and> filter (\<lambda>f. path_exists F (path_join p f)) names \<noteq> []
        \<and> sel (filter (\<lambda>f. path_exists F (path_join p f)) names) = items \<and> items \<noteq> []
        \<and> distinct items \<longrightarrow>
        EvalState_handle_execution F sel R c
          = Inr (Some MENU,
                 c\<lparr>agent := fold (\<lambda>item a. fst (R a (path_join p item))) items (agent c),
                   shown := shown c
                     @ concat (map (\<lambda>item. [[CHR 0x0A] @ ''Running evaluation: '' @ item @ [CHR 0x0A],
                                             replicate 40 CHR ''='']) items)
                     @ concat (map (\<lambda>out. (''=== '' @ fst out @ '' ==='')
                                            # map (\<lambda>mv. fst mv @ '': '' @ snd mv) (snd out))
                                 (map recorded (eval_outcomes R p items (agent c))))
                     @ [''Press any key to continue...'']\<rparr>)"
  proof
    assume "eval_data_path c = Some p \<and> p \<noteq> [] \<and> path_exists F p \<and> listdir F p = Inr names
        \<and> filter (\<lambda>f. path_exists F (path_join p f)) names \<noteq> []
        \<and> sel (filter (\<lambda>f. path_exists F (path_join p f)) names) = items \<and> items \<noteq> []
        \<and> distinct items"
    then have a: "?hyp \<and> distinct items" by blast
    then have res: "snd (run_evaluations R p items c []) = map recorded (eval_outcomes R p items (agent c))"
      by (simp add: run_evaluations_distinct)
    from a h have "EvalState_handle_execution F sel R c
          = Inr (Some MENU,
                 show_lines (concat (map display_result (snd (run_evaluations R p items c [])))
                               @ [''Press any key to continue...''])
                   (fst (run_evaluations R p items c [])))"
      by blast
    then show "EvalState_handle_execution F sel R c
          = Inr (Some MENU,
                 c\<lparr>agent := fold (\<lambda>item a. fst (R a (path_join p item))) items (agent c),
                   shown := shown c
                     @ concat (map (\<lambda>item. [[CHR 0x0A] @ ''Running evaluation: '' @ item @ [CHR 0x0A],
                                             replicate 40 CHR ''='']) items)
                     @ concat (map (\<lambda>out. (''=== '' @ fst out @ '' ==='')
                                            # map (\<lambda>mv. fst mv @ '': '' @ snd mv) (snd out))
                                 (map recorded (eval_outcomes R p items (agent c))))
                     @ [''Press any key to continue...'']\<rparr>)"
      unfolding res run_evaluations_context dr by (simp add: show_lines_def)
  qed
  have 1: "map fst (eval_outcomes R p items (agent c)) = items"
    by (rule eval_outcomes_items)
  have 23: "distinct (map fst (snd (run_evaluations R p items c [])))
            \<and> fst ` set (snd (run_evaluations R p items c [])) = set items"
    by (rule run_evaluations_keys)
  have 4: "distinct items \<longrightarrow>
        snd (run_evaluations R p items c []) = map recorded (eval_outcomes R p items (agent c))"
    by (simp add: run_evaluations_distinct)
  have 5: "recorded (item, Inl e) = (item, [(''error'', message e), (''stack_trace'', stack_trace e)])"
    by (simp add: error_result_def)
  have 6: "recorded (item, Inr r) = (item, r)" by simp
  show ?thesis
    using 23 by (intro conjI 1 4 5 6 h k) simp_all
qed

theorem C9_eval_failures_recorded_per_item_witness:
  "eval_outcomes demo_evaluator ''evals'' [''a'', ''b'', ''c''] 0
     = [(''a'', Inr [(''accuracy'', ''1.0'')]),
        (''b'', Inl (Exception ''bad item'' ''Traceback'')),
        (''c'', Inr [(''accuracy'', ''1.0'')])]
   \<and> snd (run_evaluations demo_evaluator ''evals'' [''a'', ''b'', ''c'']
            (cli0\<lparr>eval_data_path := Some ''evals''\<rparr>) [])
     = [(''a'', [(''accuracy'', ''1.0'')]),
        (''b'', [(''error'', ''bad item''), (''stack_trace'', ''Traceback'')]),
        (''c'', [(''accuracy'', ''1.0'')])]
   \<and> EvalState_handle_execution demo_fs (\<lambda>xs. xs) demo_evaluator
        (cli0\<lparr>eval_data_path := Some ''evals''\<rparr>)
     = Inr (Some MENU,
            cli0\<lparr>eval_data_path := Some ''evals'', agent := 2,
                 shown := [[CHR 0x0A] @ ''Running evaluation: a'' @ [CHR 0x0A], replicate 40 CHR ''='',
                           [CHR 0x0A] @ ''Running evaluation: b'' @ [CHR 0x0A], replicate 40 CHR ''='',
                           [CHR 0x0A] @ ''Running evaluation: c'' @ [CHR 0x0A], replicate 40 CHR ''='',
                           ''=== a ==='', ''accuracy: 1.0'',
                           ''=== b ==='', ''error: bad item'', ''stack_trace: Traceback'',
                           ''=== c ==='', ''accuracy: 1.0'',
                           ''Press any key to continue...'']\<rparr>)"
proof -
  let ?c = "cli0\<lparr>eval_data_path := Some ''evals''\<rparr>"
  have a: "agent ?c = 0" and sh: "shown ?c = []" by (simp_all add: cli0_def)
  have o: "eval_outcomes demo_evaluator ''evals'' [''a'', ''b'', ''c''] 0
     = [(''a'', Inr [(''accuracy'', ''1.0'')]),
        (''b'', Inl (Exception ''bad item'' ''Traceback'')),
        (''c'', Inr [(''accuracy'', ''1.0'')])]"
    by (simp add: demo_evaluator_def path_join_def)
  have ag: "fold (\<lambda>item a. fst (demo_evaluator a (path_join ''evals'' item))) [''a'', ''b'', ''c''] 0 = 2"
    by (simp add: demo_evaluator_def path_join_def)
  have hyp: "eval_data_path ?c = Some ''evals'' \<and> ''evals'' \<noteq> [] \<and> path_exists demo_fs ''evals''
        \<and> listdir demo_fs ''evals'' = Inr [''a'', ''b'', ''c'']
        \<and> filter (\<lambda>f. path_exists demo_fs (path_join ''evals'' f)) [''a'', ''b'', ''c''] \<noteq> []
        \<and> (\<lambda>xs. xs) (filter (\<lambda>f. path_exists demo_fs (path_join ''evals'' f)) [''a'', ''b'', ''c''])
             = [''a'', ''b'', ''c'']
        \<and> [''a'', ''b'', ''c''] \<noteq> [] \<and> distinct [''a'', ''b'', ''c'']"
    by (simp add: demo_fs_def)
  note t = C9_eval_failures_recorded_per_item[where R = demo_evaluator and p = "''evals''"
             and items = "[''a'', ''b'', ''c'']" and c = ?c and item = "''b''"
             and e = "Exception ''bad item'' ''Traceback''" and r = "[]" and F = demo_fs
             and sel = "\<lambda>xs. xs" and names = "[''a'', ''b'', ''c'']", unfolded a sh o ag]
  have 1: "snd (run_evaluations demo_evaluator ''evals'' [''a'', ''b'', ''c''] ?c [])
     = map recorded [(''a'', Inr [(''accuracy'', ''1.0'')]),
        (''b'', Inl (Exception ''bad item'' ''Traceback'')),
        (''c'', Inr [(''accuracy'', ''1.0'')])]"
    using t hyp by blast
  have 2: "EvalState_handle_execution demo_fs (\<lambda>xs. xs) demo_evaluator ?c
     = Inr (Some MENU,
            ?c\<lparr>agent := 2,
                 shown := []
                     @ concat (map (\<lambda>item. [[CHR 0x0A] @ ''Running evaluation: '' @ item @ [CHR 0x0A],
                                             replicate 40 CHR ''='']) [''a'', ''b'', ''c''])
                     @ concat (map (\<lambda>out. (''=== '' @ fst out @ '' ==='')
                                            # map (\<lambda>mv. fst mv @ '': '' @ snd mv) (snd out))
                                 (map recorded [(''a'', Inr [(''accuracy'', ''1.0'')]),
                                    (''b'', Inl (Exception ''bad item'' ''Traceback'')),
                                    (''c'', Inr [(''accuracy'', ''1.0'')])]))
                     @ [''Press any key to continue...'']\<rparr>)"
    using t hyp by blast
  show ?thesis
    unfolding 1 2 using o by (simp add: error_result_def)
qed

end
